theory Spec2Isabelle
  imports Main "HOL-Library.AList"
begin

section \<open>JavaScript values and raw errors\<close>

text \<open>
  The error handed to \<^verbatim>\<open>categorizeError\<close> and \<^verbatim>\<open>isRetryableError\<close> has the
  TypeScript type \<^verbatim>\<open>any\<close>. The model covers the primitives and \<^verbatim>\<open>Error\<close> objects
  with the two own properties the code reads, \<^verbatim>\<open>responseCode\<close> and \<^verbatim>\<open>code\<close>.
  A number is an integer-valued JavaScript number (a status code); strings are
  sequences of ASCII characters.
\<close>

datatype jsval = JUndefined | JNull | JBool bool | JNum int | JStr string

record err_obj =
  name :: string
  message :: string
  responseCode :: jsval
  code :: jsval

datatype raw_error = Prim jsval | ErrObj err_obj

text \<open>The result of an expression that may throw: the value, or the thrown value.\<close>

datatype 'a res = Ok 'a | Throw raw_error

subsection \<open>Truthiness, \<^verbatim>\<open>String(v)\<close>, \<^verbatim>\<open>toLowerCase\<close>, \<^verbatim>\<open>includes\<close>\<close>

fun truthy :: "jsval \<Rightarrow> bool" where
  "truthy JUndefined = False"
| "truthy JNull = False"
| "truthy (JBool b) = b"
| "truthy (JNum n) = (n \<noteq> 0)"
| "truthy (JStr s) = (s \<noteq> [])"

text \<open>\<^verbatim>\<open>!error\<close> is false for every object.\<close>

fun truthy_error :: "raw_error \<Rightarrow> bool" where
  "truthy_error (Prim v) = truthy v"
| "truthy_error (ErrObj e) = True"

definition digit_char :: "nat \<Rightarrow> char" where
  "digit_char d = ''0123456789'' ! d"

fun string_of_nat :: "nat \<Rightarrow> string" where
  "string_of_nat n =
     (if n < 10 then [digit_char n]
      else string_of_nat (n div 10) @ [digit_char (n mod 10)])"

declare string_of_nat.simps [simp del]

definition string_of_int :: "int \<Rightarrow> string" where
  "string_of_int i =
     (if i < 0 then CHR ''-'' # string_of_nat (nat (- i)) else string_of_nat (nat i))"

fun String_val :: "jsval \<Rightarrow> string" where
  "String_val JUndefined = ''undefined''"
| "String_val JNull = ''null''"
| "String_val (JBool b) = (if b then ''true'' else ''false'')"
| "String_val (JNum n) = string_of_int n"
| "String_val (JStr s) = s"

text \<open>
  \<^verbatim>\<open>Error.prototype.toString\<close>: the name, the message, or \<^verbatim>\<open>name: message\<close> when
  both are non-empty.
\<close>

definition Error_toString :: "err_obj \<Rightarrow> string" where
  "Error_toString e =
     (if name e = [] then message e
      else if message e = [] then name e
      else name e @ '': '' @ message e)"

fun String_err :: "raw_error \<Rightarrow> string" where
  "String_err (Prim v) = String_val v"
| "String_err (ErrObj e) = Error_toString e"

definition lower_char :: "char \<Rightarrow> char" where
  "lower_char c =
     (if 65 \<le> (of_char c :: nat) \<and> (of_char c :: nat) \<le> 90
      then char_of ((of_char c :: nat) + 32) else c)"

definition toLowerCase :: "string \<Rightarrow> string" where
  "toLowerCase s = map lower_char s"

fun startsWith :: "string \<Rightarrow> string \<Rightarrow> bool" where
  "startsWith s [] = True"
| "startsWith [] (p # ps) = False"
| "startsWith (c # cs) (p # ps) = (c = p \<and> startsWith cs ps)"

fun str_includes :: "string \<Rightarrow> string \<Rightarrow> bool" where
  "str_includes [] p = (p = [])"
| "str_includes (c # cs) p = (startsWith (c # cs) p \<or> str_includes cs p)"

subsection \<open>The regular expressions \<^verbatim>\<open>/\b(4\d\d)\b/\<close> and \<^verbatim>\<open>/\b(5\d\d)\b/\<close>\<close>

definition is_digit :: "char \<Rightarrow> bool" where
  "is_digit c = (48 \<le> (of_char c :: nat) \<and> (of_char c :: nat) \<le> 57)"

definition is_word_char :: "char \<Rightarrow> bool" where
  "is_word_char c =
     (is_digit c \<or> (65 \<le> (of_char c :: nat) \<and> (of_char c :: nat) \<le> 90)
      \<or> (97 \<le> (of_char c :: nat) \<and> (of_char c :: nat) \<le> 122) \<or> c = CHR ''_'')"

text \<open>
  \<open>code_at d cs\<close>: the three characters \<open>d\<close>, digit, digit stand at the head of \<open>cs\<close>
  and are followed by a word boundary (the end, or a non-word character).
\<close>

fun code_at :: "char \<Rightarrow> string \<Rightarrow> string option" where
  "code_at d (c # a # b # rest) =
     (if c = d \<and> is_digit a \<and> is_digit b \<and> (case rest of [] \<Rightarrow> True | r # _ \<Rightarrow> \<not> is_word_char r)
      then Some [c, a, b] else None)"
| "code_at d cs = None"

text \<open>
  \<open>match_code d prev_word s\<close>: the leftmost match of \<^verbatim>\<open>\b(d\d\d)\b\<close> in \<open>s\<close>, where
  \<open>prev_word\<close> says whether the character before \<open>s\<close> is a word character.
\<close>

fun match_code :: "char \<Rightarrow> bool \<Rightarrow> string \<Rightarrow> string option" where
  "match_code d prev_word [] = None"
| "match_code d prev_word (c # cs) =
     (case (if prev_word then None else code_at d (c # cs)) of
        Some m \<Rightarrow> Some m
      | None \<Rightarrow> match_code d (is_word_char c) cs)"

subsection \<open>\<^verbatim>\<open>parseInt\<close>\<close>

definition is_space :: "char \<Rightarrow> bool" where
  "is_space c = (c = CHR '' '' \<or> (9 \<le> (of_char c :: nat) \<and> (of_char c :: nat) \<le> 13))"

definition is_hex_digit :: "char \<Rightarrow> bool" where
  "is_hex_digit c =
     (is_digit c \<or> (65 \<le> (of_char c :: nat) \<and> (of_char c :: nat) \<le> 70)
      \<or> (97 \<le> (of_char c :: nat) \<and> (of_char c :: nat) \<le> 102))"

definition digit_val :: "char \<Rightarrow> nat" where
  "digit_val c =
     (if is_digit c then (of_char c :: nat) - 48
      else if (of_char c :: nat) \<le> 70 then (of_char c :: nat) - 55
      else (of_char c :: nat) - 87)"

definition digits_val :: "nat \<Rightarrow> string \<Rightarrow> nat" where
  "digits_val radix ds = foldl (\<lambda>a c. radix * a + digit_val c) 0 ds"

text \<open>
  \<^verbatim>\<open>parseInt(s)\<close> with no radix: leading white space and a sign are skipped, a
  \<^verbatim>\<open>0x\<close> prefix selects base 16, the longest run of digits is read; \<open>None\<close> is \<^verbatim>\<open>NaN\<close>.
\<close>

definition parseInt :: "string \<Rightarrow> int option" where
  "parseInt s =
     (let s1 = dropWhile is_space s;
          neg = (case s1 of c # _ \<Rightarrow> c = CHR ''-'' | [] \<Rightarrow> False);
          s2 = (case s1 of c # r \<Rightarrow> if c = CHR ''-'' \<or> c = CHR ''+'' then r else s1 | [] \<Rightarrow> s1);
          hex = (startsWith s2 ''0x'' \<or> startsWith s2 ''0X'');
          ds = (if hex then takeWhile is_hex_digit (drop 2 s2) else takeWhile is_digit s2);
          v = int (digits_val (if hex then 16 else 10) ds)
      in if ds = [] then None else Some (if neg then - v else v))"

section \<open>The error classifier\<close>

text \<open>
  Reading a property of \<^verbatim>\<open>null\<close> or \<^verbatim>\<open>undefined\<close> throws a \<^verbatim>\<open>TypeError\<close>; on any
  other primitive the property is \<^verbatim>\<open>undefined\<close>.
\<close>

definition TypeError :: "string \<Rightarrow> raw_error" where
  "TypeError msg =
     ErrObj \<lparr>name = ''TypeError'', message = msg, responseCode = JUndefined, code = JUndefined\<rparr>"

fun get_responseCode :: "raw_error \<Rightarrow> jsval res" where
  "get_responseCode (Prim JNull) =
     Throw (TypeError ''Cannot read properties of null (reading 'responseCode')'')"
| "get_responseCode (Prim JUndefined) =
     Throw (TypeError ''Cannot read properties of undefined (reading 'responseCode')'')"
| "get_responseCode (Prim v) = Ok JUndefined"
| "get_responseCode (ErrObj e) = Ok (responseCode e)"

fun get_code :: "raw_error \<Rightarrow> jsval res" where
  "get_code (Prim JNull) =
     Throw (TypeError ''Cannot read properties of null (reading 'code')'')"
| "get_code (Prim JUndefined) =
     Throw (TypeError ''Cannot read properties of undefined (reading 'code')'')"
| "get_code (Prim v) = Ok JUndefined"
| "get_code (ErrObj e) = Ok (code e)"

datatype error_category =
    AUTHENTICATION_FAILED
  | CONNECTION_REFUSED
  | CONNECTION_RESET
  | SOCKET_HANG_UP
  | TIMEOUT
  | TLS_SSL_ERROR
  | DNS_LOOKUP_FAILED
  | NETWORK_ERROR
  | SMTP_PROTOCOL_ERROR
  | UNKNOWN_ERROR

text \<open>The checks of \<^verbatim>\<open>categorizeError\<close> that come before the property access.\<close>

definition early_category :: "string \<Rightarrow> error_category option" where
  "early_category errorString =
     (if str_includes errorString ''authentication'' \<or> str_includes errorString ''auth failed''
         \<or> str_includes errorString ''invalid login'' \<or> str_includes errorString ''535''
      then Some AUTHENTICATION_FAILED
      else if str_includes errorString ''econnrefused'' \<or> str_includes errorString ''connection refused''
      then Some CONNECTION_REFUSED
      else if str_includes errorString ''econnreset'' \<or> str_includes errorString ''connection reset''
      then Some CONNECTION_RESET
      else if str_includes errorString ''socket hang up''
      then Some SOCKET_HANG_UP
      else if str_includes errorString ''timeout'' \<or> str_includes errorString ''etimedout''
      then Some TIMEOUT
      else if str_includes errorString ''tls'' \<or> str_includes errorString ''ssl''
         \<or> str_includes errorString ''certificate''
      then Some TLS_SSL_ERROR
      else if str_includes errorString ''enotfound'' \<or> str_includes errorString ''getaddrinfo''
      then Some DNS_LOOKUP_FAILED
      else if str_includes errorString ''network''
      then Some NETWORK_ERROR
      else None)"

definition categorizeError :: "raw_error \<Rightarrow> error_category res" where
  "categorizeError error =
     (let errorString = toLowerCase (String_err error)
      in case early_category errorString of
           Some c \<Rightarrow> Ok c
         | None \<Rightarrow>
             (case get_responseCode error of
                Throw ex \<Rightarrow> Throw ex
              | Ok rc \<Rightarrow>
                  if truthy rc \<or> match_code CHR ''5'' False errorString \<noteq> None
                  then Ok SMTP_PROTOCOL_ERROR
                  else Ok UNKNOWN_ERROR))"

definition retryablePatterns :: "string list" where
  "retryablePatterns =
     [''network'', ''timeout'', ''econnrefused'', ''econnreset'', ''etimedout'',
      ''temporary failure'', ''connection timeout'', ''socket hang up'']"

definition in_4xx :: "int \<Rightarrow> bool" where
  "in_4xx c = (400 \<le> c \<and> c \<le> 499)"

definition isRetryableError :: "raw_error \<Rightarrow> bool res" where
  "isRetryableError error =
     (if \<not> truthy_error error then Ok False
      else
        let errorString = toLowerCase (String_err error) in
        if (case match_code CHR ''4'' False errorString of
              Some m \<Rightarrow> (case parseInt m of Some c \<Rightarrow> in_4xx c | None \<Rightarrow> False)
            | None \<Rightarrow> False)
        then Ok True
        else
          case get_responseCode error of
            Throw ex \<Rightarrow> Throw ex
          | Ok rc \<Rightarrow>
              if truthy rc \<and> (case parseInt (String_val rc) of Some c \<Rightarrow> in_4xx c | None \<Rightarrow> False)
              then Ok True
              else
                case get_code error of
                  Throw ex \<Rightarrow> Throw ex
                | Ok cd \<Rightarrow>
                    if (case cd of JNum c \<Rightarrow> c \<noteq> 0 \<and> in_4xx c | _ \<Rightarrow> False)
                    then Ok True
                    else Ok (list_ex (\<lambda>pattern. str_includes errorString pattern) retryablePatterns))"

text \<open>
  \<^verbatim>\<open>getErrorDetails\<close>. An unset environment variable is rendered as
  \<^verbatim>\<open>undefined\<close> by the template strings.
\<close>

record environment =
  SMTP_HOST :: "string option"
  SMTP_PORT :: "string option"
  SMTP_USER :: "string option"
  SMTP_PASS :: "string option"
  SMTP_FROM :: "string option"

definition env_str :: "string option \<Rightarrow> string" where
  "env_str v = (case v of Some s \<Rightarrow> s | None \<Rightarrow> ''undefined'')"

definition env_truthy :: "string option \<Rightarrow> bool" where
  "env_truthy v = (case v of Some s \<Rightarrow> s \<noteq> [] | None \<Rightarrow> False)"

definition error_message :: "raw_error \<Rightarrow> string" where
  "error_message error = (case error of ErrObj e \<Rightarrow> message e | Prim v \<Rightarrow> String_val v)"

fun getErrorDetails :: "environment \<Rightarrow> raw_error \<Rightarrow> error_category \<Rightarrow> string" where
  "getErrorDetails env error AUTHENTICATION_FAILED =
     ''Authentication failed. Check SMTP_USER and SMTP_PASS credentials. Error: ''
       @ error_message error"
| "getErrorDetails env error CONNECTION_REFUSED =
     ''Connection refused to SMTP server '' @ env_str (SMTP_HOST env) @ '':''
       @ env_str (SMTP_PORT env) @ ''. Verify host and port are correct.''"
| "getErrorDetails env error CONNECTION_RESET =
     ''Connection was reset by the SMTP server. This may indicate firewall issues or server problems.''"
| "getErrorDetails env error SOCKET_HANG_UP =
     ''Connection was unexpectedly closed by the server. Check server stability.''"
| "getErrorDetails env error TIMEOUT =
     ''Connection timed out while trying to reach '' @ env_str (SMTP_HOST env) @ '':''
       @ env_str (SMTP_PORT env) @ ''. Check network connectivity and firewall rules.''"
| "getErrorDetails env error TLS_SSL_ERROR =
     ''TLS/SSL error. Check if port '' @ env_str (SMTP_PORT env)
       @ '' requires SSL (465) or TLS (587). Error: '' @ error_message error"
| "getErrorDetails env error DNS_LOOKUP_FAILED =
     ''DNS lookup failed for '' @ env_str (SMTP_HOST env) @ ''. Verify the SMTP_HOST is correct.''"
| "getErrorDetails env error NETWORK_ERROR =
     ''Network error occurred: '' @ error_message error"
| "getErrorDetails env error SMTP_PROTOCOL_ERROR =
     ''SMTP protocol error. Server response: '' @ error_message error"
| "getErrorDetails env error UNKNOWN_ERROR = error_message error"

section \<open>The service, its collaborators and its effects\<close>

text \<open>
  The constructor: the mode is fixed from the presence of host, user and password;
  the transporter exists exactly in production mode.
\<close>

record transport_options =
  host :: string
  port :: "int option"
  secure :: bool
  auth_user :: string
  auth_pass :: string

record service =
  transporter :: "transport_options option"
  isDevelopmentMode :: bool

definition new_EmailService :: "environment \<Rightarrow> service" where
  "new_EmailService env =
     (let hasSmtpConfig =
            (env_truthy (SMTP_HOST env) \<and> env_truthy (SMTP_USER env) \<and> env_truthy (SMTP_PASS env))
      in if hasSmtpConfig
         then
           let port = parseInt (if env_truthy (SMTP_PORT env) then env_str (SMTP_PORT env) else ''587'')
           in \<lparr>transporter =
                  Some \<lparr>host = env_str (SMTP_HOST env), port = port, secure = (port = Some 465),
                        auth_user = env_str (SMTP_USER env), auth_pass = env_str (SMTP_PASS env)\<rparr>,
                isDevelopmentMode = \<not> hasSmtpConfig\<rparr>
         else \<lparr>transporter = None, isDevelopmentMode = \<not> hasSmtpConfig\<rparr>)"

type_synonym metadata = "(string \<times> jsval) list"

record mail_options =
  mail_from :: string
  mail_to :: string
  mail_subject :: string
  mail_html :: string

record email_options =
  opt_to :: string
  opt_subject :: string
  opt_html :: string
  opt_metadata :: "metadata option"

record email_log =
  recipientEmail :: string
  recipientName :: "string option"
  log_subject :: string
  templateType :: string
  status :: string
  log_metadata :: metadata
  errorMessage :: "string option"

record user =
  role :: string
  email :: "string option"

record send_result =
  success :: bool
  messageId :: "string option"
  error :: "string option"
  retryCount :: int
  errorCategory :: "error_category option"

text \<open>
  What the service does to the outside is recorded as a trace of events, oldest first.
  An event stands for a call that the service makes: a \<^verbatim>\<open>sendMail\<close> to the transport,
  a backoff sleep (in milliseconds), an append to the audit store, a lookup in the
  directory, a console message. Where the code awaits the call, the service goes on only
  when the call has settled. The text of a console message is abstracted to a label
  naming the call.
\<close>

datatype level = LogLevel | WarnLevel | ErrorLevel

datatype event =
    SendMail mail_options
  | Sleep nat
  | CreateEmailLog email_log
  | GetUsers
  | Console level string

text \<open>
  A detached task: the call \<^verbatim>\<open>this.notifySuperAdmin(...).catch(...)\<close> whose promise
  is not awaited. The callee runs at once up to its first \<^verbatim>\<open>await\<close>: it issues the
  directory lookup, and there it is suspended. A task is this suspended call: the number
  of its lookup among the lookups of the trace, and the arguments of the call. The state
  holds the tasks that have not been resumed. When a task is resumed depends on when the
  directory answers; nothing fixes it relative to the caller of \<^verbatim>\<open>sendEmail\<close>. A
  lookup that fails is taken to fail when it is answered.
\<close>

datatype task = NotifySuperAdmin nat string string string jsval metadata

record state =
  trace :: "event list"
  email_logs :: "email_log list"
  pending :: "task list"

text \<open>
  The collaborators, none of which the service controls: the environment, the clock,
  the transport (the outcome of its \<open>n\<close>-th \<^verbatim>\<open>sendMail\<close> call: a message id, or a
  thrown error object with optional \<^verbatim>\<open>responseCode\<close> and \<^verbatim>\<open>code\<close>, as the mail
  library rejects), the audit store and the user directory (either may throw any value),
  and the template renderers (pure functions).
\<close>

record world =
  env :: environment
  now :: nat
  sendMail_outcome :: "nat \<Rightarrow> err_obj + string"
  createEmailLog_outcome :: "nat \<Rightarrow> raw_error option"
  getUsers_outcome :: "nat \<Rightarrow> raw_error + user list"
  generateRegistrationApprovedEmail :: "string \<Rightarrow> string \<Rightarrow> string \<Rightarrow> string \<Rightarrow> string"
  generateAdminNotificationEmail :: "string \<Rightarrow> string \<Rightarrow> string \<Rightarrow> jsval \<Rightarrow> metadata \<Rightarrow> string"

fun sends :: "event list \<Rightarrow> mail_options list" where
  "sends [] = []"
| "sends (SendMail m # es) = m # sends es"
| "sends (e # es) = sends es"

fun sleeps :: "event list \<Rightarrow> nat list" where
  "sleeps [] = []"
| "sleeps (Sleep ms # es) = ms # sleeps es"
| "sleeps (e # es) = sleeps es"

fun audit_appends :: "event list \<Rightarrow> email_log list" where
  "audit_appends [] = []"
| "audit_appends (CreateEmailLog r # es) = r # audit_appends es"
| "audit_appends (e # es) = audit_appends es"

fun lookups :: "event list \<Rightarrow> nat" where
  "lookups [] = 0"
| "lookups (GetUsers # es) = Suc (lookups es)"
| "lookups (e # es) = lookups es"

fun console_of :: "level \<Rightarrow> event list \<Rightarrow> string list" where
  "console_of l [] = []"
| "console_of l (Console l' t # es) = (if l' = l then t # console_of l es else console_of l es)"
| "console_of l (e # es) = console_of l es"

definition emit :: "event list \<Rightarrow> state \<Rightarrow> state" where
  "emit es s = s\<lparr>trace := trace s @ es\<rparr>"

text \<open>
  \<^verbatim>\<open>await this.transporter.sendMail(mailOptions)\<close>. What the transport throws is an
  error object, so the value caught by \<^verbatim>\<open>sendWithRetry\<close> is never \<^verbatim>\<open>null\<close> or
  \<^verbatim>\<open>undefined\<close>; the classifier itself is modelled on every raw error.
\<close>

definition transporter_sendMail :: "world \<Rightarrow> mail_options \<Rightarrow> state \<Rightarrow> string res \<times> state" where
  "transporter_sendMail w mailOptions s =
     (case sendMail_outcome w (length (sends (trace s))) of
        Inl e \<Rightarrow> (Throw (ErrObj e), emit [SendMail mailOptions] s)
      | Inr info_messageId \<Rightarrow> (Ok info_messageId, emit [SendMail mailOptions] s))"

text \<open>\<^verbatim>\<open>await storage.createEmailLog(record)\<close>\<close>

definition storage_createEmailLog :: "world \<Rightarrow> email_log \<Rightarrow> state \<Rightarrow> unit res \<times> state" where
  "storage_createEmailLog w r s =
     (case createEmailLog_outcome w (length (audit_appends (trace s))) of
        Some ex \<Rightarrow> (Throw ex, emit [CreateEmailLog r] s)
      | None \<Rightarrow> (Ok (), emit [CreateEmailLog r] (s\<lparr>email_logs := email_logs s @ [r]\<rparr>)))"

text \<open>What the directory answers to the \<open>n\<close>-th lookup.\<close>

definition getUsers_answer :: "world \<Rightarrow> nat \<Rightarrow> user list res" where
  "getUsers_answer w n = (case getUsers_outcome w n of Inl ex \<Rightarrow> Throw ex | Inr us \<Rightarrow> Ok us)"

text \<open>\<^verbatim>\<open>await storage.getUsers()\<close>: the lookup is issued and its answer awaited.\<close>

definition storage_getUsers :: "world \<Rightarrow> state \<Rightarrow> user list res \<times> state" where
  "storage_getUsers w s = (getUsers_answer w (lookups (trace s)), emit [GetUsers] s)"

section \<open>The retry scheduler\<close>

text \<open>
  \<^verbatim>\<open>sendWithRetry(mailOptions, maxRetries = 3, attempt = 1)\<close>. The method is private
  and entered with \<open>attempt = 1\<close>, so \<open>attempt - 1\<close> in the exponent of the delay never
  goes below \<open>0\<close>; the retry count is \<open>attempt - 1\<close> as an integer.
\<close>

function sendWithRetry ::
  "service \<Rightarrow> world \<Rightarrow> mail_options \<Rightarrow> nat \<Rightarrow> nat \<Rightarrow> state \<Rightarrow> send_result res \<times> state" where
  "sendWithRetry svc w mailOptions maxRetries attempt s =
     (if isDevelopmentMode svc \<or> transporter svc = None
      then
        (Ok \<lparr>success = True, messageId = Some (''dev-mode-'' @ string_of_nat (now w)),
             error = None, retryCount = 0, errorCategory = None\<rparr>,
         emit [Console LogLevel ''[DEV MODE] Email would be sent:'',
               Console LogLevel ''To:'', Console LogLevel ''From:'', Console LogLevel ''Subject:'',
               Console LogLevel ''(Email content logged to email_logs table)''] s)
      else
        case transporter_sendMail w mailOptions
               (emit [Console LogLevel ''Attempting to send email''] s) of
          (Ok info_messageId, s1) \<Rightarrow>
            (Ok \<lparr>success = True, messageId = Some info_messageId, error = None,
                 retryCount = int attempt - 1, errorCategory = None\<rparr>,
             emit [Console LogLevel ''Email sent successfully!''] s1)
        | (Throw err, s1) \<Rightarrow>
            (case categorizeError err of
               Throw ex \<Rightarrow> (Throw ex, s1)
             | Ok category \<Rightarrow>
                 let errorDetails = getErrorDetails (env w) err category;
                     s2 = emit [Console ErrorLevel ''Email send failed'',
                                Console ErrorLevel ''Error Category:'',
                                Console ErrorLevel ''Error Details:''] s1
                 in case isRetryableError err of
                      Throw ex \<Rightarrow> (Throw ex, s2)
                    | Ok isRetryable \<Rightarrow>
                        if isRetryable \<and> attempt < maxRetries
                        then
                          let delayMs = 2 ^ (attempt - 1) * 1000
                          in sendWithRetry svc w mailOptions maxRetries (attempt + 1)
                               (emit [Console LogLevel ''Error is retryable. Retrying'',
                                      Sleep delayMs] s2)
                        else
                          (Ok \<lparr>success = False, messageId = None, error = Some errorDetails,
                               retryCount = int attempt - 1,
                               errorCategory = Some category\<rparr>,
                           emit [Console ErrorLevel
                                   ''Max retries reached or error is not retryable. Giving up.'']
                             s2)))"
  by pat_completeness auto
termination
  by (relation "measure (\<lambda>(svc, w, mailOptions, maxRetries, attempt, s). maxRetries - attempt)")
    auto

declare sendWithRetry.simps [simp del]

section \<open>The oversight notifier\<close>

definition default_from :: string where
  "default_from = [CHR 0x22] @ ''BootFeet 2K26'' @ [CHR 0x22] @ '' <noreply@bootfeet.com>''"

definition resolve_from :: "environment \<Rightarrow> string" where
  "resolve_from e = (if env_truthy (SMTP_FROM e) then env_str (SMTP_FROM e) else default_from)"

text \<open>
  The body of the \<^verbatim>\<open>try\<close> block of \<^verbatim>\<open>notifySuperAdmin\<close> from the point where
  \<^verbatim>\<open>await storage.getUsers()\<close> has settled with the answer \<open>lookup\<close>.
\<close>

definition notifySuperAdmin_after_lookup ::
  "service \<Rightarrow> world \<Rightarrow> string \<Rightarrow> string \<Rightarrow> string \<Rightarrow> jsval \<Rightarrow> metadata
     \<Rightarrow> user list res \<Rightarrow> state \<Rightarrow> unit res \<times> state" where
  "notifySuperAdmin_after_lookup svc w emailType recipientEmail' recipientName' eventName
       additionalDetails lookup s1 =
     (case lookup of
        Throw ex \<Rightarrow> (Throw ex, s1)
      | Ok superadmins \<Rightarrow>
          (case find (\<lambda>u. role u = ''super_admin'') superadmins of
             None \<Rightarrow> (Ok (), emit [Console WarnLevel ''No superadmin found to notify about email activity''] s1)
           | Some superadmin \<Rightarrow>
               if \<not> env_truthy (email superadmin)
               then (Ok (), emit [Console WarnLevel ''No superadmin found to notify about email activity''] s1)
               else
                 let html = generateAdminNotificationEmail w emailType recipientEmail'
                              recipientName' eventName additionalDetails;
                     mailOptions =
                       \<lparr>mail_from = resolve_from (env w),
                        mail_to = env_str (email superadmin),
                        mail_subject = [CHR 0xF0, CHR 0x9F, CHR 0x93, CHR 0xA7]
                          @ '' Email Activity: '' @ emailType @ '' sent to '' @ recipientName',
                        mail_html = html\<rparr>
                 in if isDevelopmentMode svc \<or> transporter svc = None
                    then (Ok (), emit [Console LogLevel ''[DEV MODE] Admin notification would be sent:'',
                                       Console LogLevel ''To:'', Console LogLevel ''Subject:''] s1)
                    else
                      case transporter_sendMail w mailOptions s1 of
                        (Throw ex, s2) \<Rightarrow> (Throw ex, s2)
                      | (Ok info_messageId, s2) \<Rightarrow>
                          (Ok (), emit [Console LogLevel ''Admin notification sent''] s2)))"

text \<open>The body of the \<^verbatim>\<open>try\<close> block of \<^verbatim>\<open>notifySuperAdmin\<close>.\<close>

definition notifySuperAdmin_try ::
  "service \<Rightarrow> world \<Rightarrow> string \<Rightarrow> string \<Rightarrow> string \<Rightarrow> jsval \<Rightarrow> metadata \<Rightarrow> state
     \<Rightarrow> unit res \<times> state" where
  "notifySuperAdmin_try svc w emailType recipientEmail' recipientName' eventName additionalDetails s =
     (case storage_getUsers w s of
        (lookup, s1) \<Rightarrow>
          notifySuperAdmin_after_lookup svc w emailType recipientEmail' recipientName' eventName
            additionalDetails lookup s1)"

definition notifySuperAdmin ::
  "service \<Rightarrow> world \<Rightarrow> string \<Rightarrow> string \<Rightarrow> string \<Rightarrow> jsval \<Rightarrow> metadata \<Rightarrow> state
     \<Rightarrow> unit res \<times> state" where
  "notifySuperAdmin svc w emailType recipientEmail' recipientName' eventName additionalDetails s =
     (case notifySuperAdmin_try svc w emailType recipientEmail' recipientName' eventName
             additionalDetails s of
        (Throw err, s1) \<Rightarrow>
          (Ok (), emit [Console ErrorLevel ''Failed to send admin notification:''] s1)
      | (Ok u, s1) \<Rightarrow> (Ok u, s1))"

text \<open>
  The call that \<^verbatim>\<open>sendEmail\<close> makes and does not await: \<^verbatim>\<open>notifySuperAdmin\<close> runs up
  to its \<^verbatim>\<open>await\<close>, that is, it issues the lookup, and the suspended call is kept as
  a task.
\<close>

definition notifySuperAdmin_start ::
  "string \<Rightarrow> string \<Rightarrow> string \<Rightarrow> jsval \<Rightarrow> metadata \<Rightarrow> state \<Rightarrow> state" where
  "notifySuperAdmin_start emailType recipientEmail' recipientName' eventName additionalDetails s =
     (emit [GetUsers] s)
       \<lparr>pending := pending s @
          [NotifySuperAdmin (lookups (trace s)) emailType recipientEmail' recipientName'
             eventName additionalDetails]\<rparr>"

text \<open>
  Resuming a task: the directory has answered the lookup of the task, the rest of the
  \<^verbatim>\<open>try\<close> block runs under the \<^verbatim>\<open>catch\<close> of \<^verbatim>\<open>notifySuperAdmin\<close>, and under the
  handler \<^verbatim>\<open>.catch(err => console.error(...))\<close> that \<^verbatim>\<open>sendEmail\<close> attaches to
  the call.
\<close>

definition notifySuperAdmin_resume ::
  "service \<Rightarrow> world \<Rightarrow> string \<Rightarrow> string \<Rightarrow> string \<Rightarrow> jsval \<Rightarrow> metadata
     \<Rightarrow> user list res \<Rightarrow> state \<Rightarrow> unit res \<times> state" where
  "notifySuperAdmin_resume svc w emailType recipientEmail' recipientName' eventName
       additionalDetails lookup s =
     (case notifySuperAdmin_after_lookup svc w emailType recipientEmail' recipientName' eventName
             additionalDetails lookup s of
        (Throw err, s1) \<Rightarrow>
          (Ok (), emit [Console ErrorLevel ''Failed to send admin notification:''] s1)
      | (Ok u, s1) \<Rightarrow> (Ok u, s1))"

fun run_task :: "service \<Rightarrow> world \<Rightarrow> task \<Rightarrow> state \<Rightarrow> unit res \<times> state" where
  "run_task svc w (NotifySuperAdmin n emailType recipientEmail' recipientName' eventName details) s =
     (case notifySuperAdmin_resume svc w emailType recipientEmail' recipientName' eventName
             details (getUsers_answer w n) s of
        (Throw err, s1) \<Rightarrow> (Ok (), emit [Console ErrorLevel ''Failed to notify superadmin:''] s1)
      | (Ok u, s1) \<Rightarrow> (Ok u, s1))"

section \<open>The delivery orchestrator\<close>

definition or_null :: "string option \<Rightarrow> string option" where
  "or_null v = (if env_truthy v then v else None)"

definition metadata_eventName :: "metadata option \<Rightarrow> jsval" where
  "metadata_eventName md =
     (case md of
        None \<Rightarrow> JStr ''N/A''
      | Some m \<Rightarrow>
          (case map_of m ''eventName'' of
             Some v \<Rightarrow> if truthy v then v else JStr ''N/A''
           | None \<Rightarrow> JStr ''N/A''))"

definition build_email_log :: "email_options \<Rightarrow> string \<Rightarrow> string option \<Rightarrow> send_result \<Rightarrow> email_log" where
  "build_email_log options templateType' recipientName' result =
     \<lparr>recipientEmail = opt_to options,
      recipientName = or_null recipientName',
      log_subject = opt_subject options,
      templateType = templateType',
      status = (if success result then ''sent'' else ''failed''),
      log_metadata =
        AList.update ''retryCount'' (JNum (retryCount result))
          (case opt_metadata options of Some m \<Rightarrow> m | None \<Rightarrow> []),
      errorMessage = or_null (error result)\<rparr>"

definition sendEmail ::
  "service \<Rightarrow> world \<Rightarrow> email_options \<Rightarrow> string \<Rightarrow> string option \<Rightarrow> state
     \<Rightarrow> send_result res \<times> state" where
  "sendEmail svc w options templateType' recipientName' s =
     (let mailOptions =
            \<lparr>mail_from = resolve_from (env w), mail_to = opt_to options,
             mail_subject = opt_subject options, mail_html = opt_html options\<rparr>
      in case sendWithRetry svc w mailOptions 3 1 s of
           (Throw ex, s1) \<Rightarrow> (Throw ex, s1)
         | (Ok result, s1) \<Rightarrow>
             let s2 =
                   (case storage_createEmailLog w
                           (build_email_log options templateType' recipientName' result) s1 of
                      (Throw logError, s') \<Rightarrow>
                        emit [Console WarnLevel ''Failed to log email to database:''] s'
                    | (Ok u, s') \<Rightarrow> s')
             in if success result
                then
                  let s3 = emit [Console LogLevel
                                   (if isDevelopmentMode svc
                                    then ''[DEV MODE] Email logged successfully''
                                    else ''Email sent successfully'')] s2;
                      eventName = metadata_eventName (opt_metadata options)
                  in (Ok result,
                      notifySuperAdmin_start templateType' (opt_to options)
                        (if env_truthy recipientName' then env_str recipientName' else ''Unknown'')
                        eventName
                        (case opt_metadata options of Some m \<Rightarrow> m | None \<Rightarrow> []) s3)
                else (Ok result, emit [Console ErrorLevel ''Email send failed''] s2))"

definition sendRegistrationApproved ::
  "service \<Rightarrow> world \<Rightarrow> string \<Rightarrow> string \<Rightarrow> string \<Rightarrow> string \<Rightarrow> string \<Rightarrow> state
     \<Rightarrow> send_result res \<times> state" where
  "sendRegistrationApproved svc w to' name' eventName username password s =
     (let html = generateRegistrationApprovedEmail w name' eventName username password
      in sendEmail svc w
           \<lparr>opt_to = to', opt_subject = ''Registration Approved - '' @ eventName, opt_html = html,
            opt_metadata = Some [(''eventName'', JStr eventName), (''username'', JStr username)]\<rparr>
           ''registration_approved'' (Some name') s)"

section \<open>The first version of the service\<close>

text \<open>
  \<^verbatim>\<open>src/server/services/emailService.ts\<close> holds an earlier version of the service
  ahead of the one with the development mode. Its constructor always creates a
  transporter, its \<^verbatim>\<open>sendWithRetry\<close> reports the error's message, and its
  \<^verbatim>\<open>sendEmail\<close> awaits \<^verbatim>\<open>storage.createEmailLog\<close> outside any \<^verbatim>\<open>try\<close>.
\<close>

function sendWithRetry_v1 ::
  "world \<Rightarrow> mail_options \<Rightarrow> nat \<Rightarrow> nat \<Rightarrow> state \<Rightarrow> send_result res \<times> state" where
  "sendWithRetry_v1 w mailOptions maxRetries attempt s =
     (case transporter_sendMail w mailOptions s of
        (Ok info_messageId, s1) \<Rightarrow>
          (Ok \<lparr>success = True, messageId = Some info_messageId, error = None,
               retryCount = int attempt - 1, errorCategory = None\<rparr>, s1)
      | (Throw err, s1) \<Rightarrow>
          let errorMessage = (case err of ErrObj e \<Rightarrow> message e | Prim v \<Rightarrow> ''Unknown error'')
          in case isRetryableError err of
               Throw ex \<Rightarrow> (Throw ex, s1)
             | Ok isRetryable \<Rightarrow>
                 if isRetryable \<and> attempt < maxRetries
                 then
                   let delayMs = 2 ^ (attempt - 1) * 1000
                   in sendWithRetry_v1 w mailOptions maxRetries (attempt + 1)
                        (emit [Console LogLevel ''Email send failed, retrying'', Sleep delayMs] s1)
                 else
                   (Ok \<lparr>success = False, messageId = None, error = Some errorMessage,
                        retryCount = int attempt - 1, errorCategory = None\<rparr>, s1))"
  by pat_completeness auto
termination
  by (relation "measure (\<lambda>(w, mailOptions, maxRetries, attempt, s). maxRetries - attempt)") auto

declare sendWithRetry_v1.simps [simp del]

definition sendEmail_v1 ::
  "world \<Rightarrow> email_options \<Rightarrow> string \<Rightarrow> string option \<Rightarrow> state \<Rightarrow> send_result res \<times> state" where
  "sendEmail_v1 w options templateType' recipientName' s =
     (let mailOptions =
            \<lparr>mail_from = resolve_from (env w), mail_to = opt_to options,
             mail_subject = opt_subject options, mail_html = opt_html options\<rparr>
      in case sendWithRetry_v1 w mailOptions 3 1 s of
           (Throw ex, s1) \<Rightarrow> (Throw ex, s1)
         | (Ok result, s1) \<Rightarrow>
             (case storage_createEmailLog w
                     (build_email_log options templateType' recipientName' result) s1 of
                (Throw ex, s2) \<Rightarrow> (Throw ex, s2)
              | (Ok u, s2) \<Rightarrow>
                  if success result
                  then (Ok result, emit [Console LogLevel ''Email sent successfully''] s2)
                  else (Ok result, emit [Console ErrorLevel ''Email send failed''] s2)))"

section \<open>Notions used in the statements\<close>

text \<open>The text of the error holds a stand-alone number \<open>4dd\<close>, respectively \<open>5dd\<close>.\<close>

definition text_4xx :: "raw_error \<Rightarrow> bool" where
  "text_4xx e = (match_code CHR ''4'' False (toLowerCase (String_err e)) \<noteq> None)"

definition text_5xx :: "raw_error \<Rightarrow> bool" where
  "text_5xx e = (match_code CHR ''5'' False (toLowerCase (String_err e)) \<noteq> None)"

text \<open>The text of the error holds one of the transient patterns.\<close>

definition transient_text :: "raw_error \<Rightarrow> bool" where
  "transient_text e =
     list_ex (\<lambda>pattern. str_includes (toLowerCase (String_err e)) pattern) retryablePatterns"

text \<open>The text of the error holds one of the authentication patterns of the classifier.\<close>

definition auth_text :: "raw_error \<Rightarrow> bool" where
  "auth_text e =
     (str_includes (toLowerCase (String_err e)) ''authentication''
      \<or> str_includes (toLowerCase (String_err e)) ''auth failed''
      \<or> str_includes (toLowerCase (String_err e)) ''invalid login''
      \<or> str_includes (toLowerCase (String_err e)) ''535'')"

text \<open>A structured code that is a number in 400 to 499.\<close>

fun num_4xx :: "jsval \<Rightarrow> bool" where
  "num_4xx (JNum c) = in_4xx c"
| "num_4xx v = False"

definition in_5xx :: "int \<Rightarrow> bool" where
  "in_5xx c = (500 \<le> c \<and> c \<le> 599)"

text \<open>The events of a trace other than console output.\<close>

fun effects :: "event list \<Rightarrow> event list" where
  "effects [] = []"
| "effects (Console l t # es) = effects es"
| "effects (e # es) = e # effects es"

text \<open>
  The schedule of \<open>j\<close> failed attempts starting at attempt \<open>a\<close>: each is a send followed
  by a sleep of \<open>2 ^ (a - 1)\<close> seconds.
\<close>

fun backoff_schedule :: "mail_options \<Rightarrow> nat \<Rightarrow> nat \<Rightarrow> event list" where
  "backoff_schedule m a 0 = []"
| "backoff_schedule m a (Suc j) =
     [SendMail m, Sleep (2 ^ (a - 1) * 1000)] @ backoff_schedule m (Suc a) j"

text \<open>Production mode and development mode, as the code tests them.\<close>

definition live :: "service \<Rightarrow> bool" where
  "live svc = (\<not> (isDevelopmentMode svc \<or> transporter svc = None))"

text \<open>The structured codes of a raw error; a primitive has none.\<close>

definition rc_of :: "raw_error \<Rightarrow> jsval" where
  "rc_of e = (case e of ErrObj x \<Rightarrow> responseCode x | Prim v \<Rightarrow> JUndefined)"

definition code_of :: "raw_error \<Rightarrow> jsval" where
  "code_of e = (case e of ErrObj x \<Rightarrow> code x | Prim v \<Rightarrow> JUndefined)"

fun num_5xx :: "jsval \<Rightarrow> bool" where
  "num_5xx (JNum c) = in_5xx c"
| "num_5xx v = False"

definition nullish :: "raw_error \<Rightarrow> bool" where
  "nullish e = (e = Prim JNull \<or> e = Prim JUndefined)"

text \<open>A transport error that \<^verbatim>\<open>isRetryableError\<close> accepts.\<close>

definition retryable :: "err_obj \<Rightarrow> bool" where
  "retryable e = (isRetryableError (ErrObj e) = Ok True)"

text \<open>
  The declarative reading of \<^verbatim>\<open>/\b(d\d\d)\b/\<close>: somewhere in the string stand \<open>d\<close>
  and two digits, with no word character directly before or after them.
\<close>

definition code_match :: "char \<Rightarrow> bool \<Rightarrow> string \<Rightarrow> bool" where
  "code_match d prev_word s =
     (\<exists>pre a b post. s = pre @ [d, a, b] @ post \<and> is_digit a \<and> is_digit b
        \<and> (if pre = [] then \<not> prev_word else \<not> is_word_char (last pre))
        \<and> (post = [] \<or> \<not> is_word_char (hd post)))"

text \<open>The mail that \<^verbatim>\<open>sendEmail\<close> hands to the retry scheduler.\<close>

definition delivery_options :: "world \<Rightarrow> email_options \<Rightarrow> mail_options" where
  "delivery_options w options =
     \<lparr>mail_from = resolve_from (env w), mail_to = opt_to options,
      mail_subject = opt_subject options, mail_html = opt_html options\<rparr>"

text \<open>
  The detached task that a successful \<^verbatim>\<open>sendEmail\<close> leaves behind; \<open>n\<close> is the number
  of its directory lookup.
\<close>

definition notification_for :: "nat \<Rightarrow> email_options \<Rightarrow> string \<Rightarrow> string option \<Rightarrow> task" where
  "notification_for n options templateType' recipientName' =
     NotifySuperAdmin n templateType' (opt_to options)
       (if env_truthy recipientName' then env_str recipientName' else ''Unknown'')
       (metadata_eventName (opt_metadata options))
       (case opt_metadata options of Some m \<Rightarrow> m | None \<Rightarrow> [])"

text \<open>The value of a result, if it is not a thrown one.\<close>

fun result_of :: "'a res \<Rightarrow> 'a option" where
  "result_of (Ok r) = Some r"
| "result_of (Throw ex) = None"

section \<open>Example inputs\<close>

text \<open>
  Transport errors as an SMTP server answers them, a production and a development
  configuration, and collaborators that answer in a fixed way.
\<close>

definition err_421_text :: raw_error where
  "err_421_text = ErrObj \<lparr>name = ''Error'', message = ''421 4.7.0 Try again later'',
     responseCode = JUndefined, code = JUndefined\<rparr>"

definition err_450_code :: raw_error where
  "err_450_code = ErrObj \<lparr>name = ''Error'', message = ''Mailbox busy'',
     responseCode = JNum 450, code = JUndefined\<rparr>"

definition err_550 :: raw_error where
  "err_550 = ErrObj \<lparr>name = ''Error'', message = ''Mailbox unavailable'',
     responseCode = JNum 550, code = JUndefined\<rparr>"

definition err_550_timeout :: raw_error where
  "err_550_timeout = ErrObj \<lparr>name = ''Error'', message = ''Connection timeout'',
     responseCode = JNum 550, code = JUndefined\<rparr>"

definition err_auth_454 :: raw_error where
  "err_auth_454 = ErrObj \<lparr>name = ''Error'',
     message = ''Invalid login: 454 4.7.0 Temporary authentication failure'',
     responseCode = JUndefined, code = JUndefined\<rparr>"

definition err_535_code :: raw_error where
  "err_535_code = ErrObj \<lparr>name = ''Error'', message = ''Invalid login: bad credentials'',
     responseCode = JNum 535, code = JUndefined\<rparr>"

definition e421 :: err_obj where
  "e421 = \<lparr>name = ''Error'', message = ''Service not available, try again later'',
     responseCode = JNum 421, code = JUndefined\<rparr>"

definition e550 :: err_obj where
  "e550 = \<lparr>name = ''Error'', message = ''Mailbox unavailable'',
     responseCode = JNum 550, code = JUndefined\<rparr>"

definition env_live :: environment where
  "env_live = \<lparr>SMTP_HOST = Some ''smtp.example.org'', SMTP_PORT = Some ''587'',
     SMTP_USER = Some ''mailer'', SMTP_PASS = Some ''secret'', SMTP_FROM = None\<rparr>"

definition env_dev :: environment where
  "env_dev = \<lparr>SMTP_HOST = None, SMTP_PORT = None, SMTP_USER = None,
     SMTP_PASS = None, SMTP_FROM = None\<rparr>"

definition example_world :: "environment \<Rightarrow> (nat \<Rightarrow> err_obj + string) \<Rightarrow> world" where
  "example_world e outcome =
     \<lparr>env = e,
      now = 1700000000000,
      sendMail_outcome = outcome,
      createEmailLog_outcome = (\<lambda>n. None),
      getUsers_outcome = (\<lambda>n. Inr []),
      generateRegistrationApprovedEmail = (\<lambda>name' eventName username password. ''<html>approved</html>''),
      generateAdminNotificationEmail = (\<lambda>emailType to' name' eventName details. ''<html>activity</html>'')\<rparr>"

definition world_421_twice :: world where
  "world_421_twice = example_world env_live (\<lambda>n. if n < 2 then Inl e421 else Inr ''<id-1@example.org>'')"

definition world_421_always :: world where
  "world_421_always = example_world env_live (\<lambda>n. Inl e421)"

definition world_550 :: world where
  "world_550 = example_world env_live (\<lambda>n. Inl e550)"

definition s0 :: state where
  "s0 = \<lparr>trace = [], email_logs = [], pending = []\<rparr>"

definition mail0 :: mail_options where
  "mail0 = \<lparr>mail_from = ''noreply@bootfeet.com'', mail_to = ''a@x.com'',
            mail_subject = ''Registration Approved - 5K Run'', mail_html = ''<html>approved</html>''\<rparr>"

definition svc_live :: service where
  "svc_live = new_EmailService env_live"

definition svc_dev :: service where
  "svc_dev = new_EmailService env_dev"

definition options0 :: email_options where
  "options0 = \<lparr>opt_to = ''a@x.com'', opt_subject = ''Registration Approved - 5K Run'',
     opt_html = ''<html>approved</html>'',
     opt_metadata = Some [(''eventName'', JStr ''5K Run''), (''username'', JStr ''ann1'')]\<rparr>"

definition db_error :: raw_error where
  "db_error = ErrObj \<lparr>name = ''Error'', message = ''connection to database lost'',
     responseCode = JUndefined, code = JUndefined\<rparr>"

definition world_dev :: world where
  "world_dev = example_world env_dev (\<lambda>n. Inr ''<id-1@example.org>'')"

definition world_dev_db_down :: world where
  "world_dev_db_down = world_dev\<lparr>createEmailLog_outcome := (\<lambda>n. Some db_error)\<rparr>"

definition world_db_down :: world where
  "world_db_down =
     (example_world env_live (\<lambda>n. Inr ''<id-1@example.org>''))
       \<lparr>createEmailLog_outcome := (\<lambda>n. Some db_error)\<rparr>"

definition admin_user :: user where
  "admin_user = \<lparr>role = ''admin'', email = Some ''admin@x.com''\<rparr>"

definition super_admin_user :: user where
  "super_admin_user = \<lparr>role = ''super_admin'', email = Some ''root@x.com''\<rparr>"

definition world_no_superadmin :: world where
  "world_no_superadmin = world_550\<lparr>getUsers_outcome := (\<lambda>n. Inr [admin_user])\<rparr>"

definition world_directory_down :: world where
  "world_directory_down = world_550\<lparr>getUsers_outcome := (\<lambda>n. Inl db_error)\<rparr>"

definition world_superadmin_550 :: world where
  "world_superadmin_550 =
     world_550\<lparr>getUsers_outcome := (\<lambda>n. Inr [admin_user, super_admin_user])\<rparr>"

section \<open>Strings, the matcher and \<^verbatim>\<open>parseInt\<close>\<close>

lemma code_at_SomeD:
  "code_at d s = Some m \<Longrightarrow> \<exists>a b. m = [d, a, b] \<and> is_digit a \<and> is_digit b"
  by (cases "(d, s)" rule: code_at.cases) (auto split: if_splits)

lemma match_code_SomeD:
  "match_code d pw s = Some m \<Longrightarrow> \<exists>a b. m = [d, a, b] \<and> is_digit a \<and> is_digit b"
proof (induction s arbitrary: pw)
  case Nil
  then show ?case by simp
next
  case (Cons c cs)
  show ?case
  proof (cases "if pw then None else code_at d (c # cs)")
    case None
    with Cons.prems have "match_code d (is_word_char c) cs = Some m" by simp
    then show ?thesis by (rule Cons.IH)
  next
    case (Some m')
    with Cons.prems have "m' = m" by simp
    with Some have "code_at d (c # cs) = Some m" by (simp split: if_splits)
    then show ?thesis by (rule code_at_SomeD)
  qed
qed

lemma is_digit_of_char: "is_digit a \<Longrightarrow> 48 \<le> (of_char a :: nat) \<and> (of_char a :: nat) \<le> 57"
  by (simp add: is_digit_def)

lemma is_digit_not_space: "is_digit a \<Longrightarrow> \<not> is_space a"
  by (auto simp: is_digit_def is_space_def)

lemma digit_val_digit: "is_digit a \<Longrightarrow> digit_val a = of_char a - 48"
  by (simp add: digit_val_def)

lemma parseInt_4xx:
  assumes "is_digit a" "is_digit b"
  shows "\<exists>c. parseInt [CHR ''4'', a, b] = Some c \<and> in_4xx c"
proof -
  have d4: "is_digit CHR ''4''" by (simp add: is_digit_def)
  have s4: "\<not> is_space CHR ''4''" by (simp add: is_space_def)
  have v4: "digit_val CHR ''4'' = 4" by (simp add: digit_val_def is_digit_def)
  have "parseInt [CHR ''4'', a, b] = Some (int (digits_val 10 [CHR ''4'', a, b]))"
    using assms d4 s4 by (simp add: parseInt_def)
  moreover have "in_4xx (int (digits_val 10 [CHR ''4'', a, b]))"
    using assms[THEN is_digit_of_char] assms[THEN digit_val_digit] v4
    by (simp add: digits_val_def in_4xx_def)
  ultimately show ?thesis by simp
qed

lemma of_char_digit_char: "d < 10 \<Longrightarrow> (of_char (digit_char d) :: nat) = 48 + d"
proof -
  assume "d < 10"
  then have "d \<in> {0, 1, 2, 3, 4, 5, 6, 7, 8, 9}" by auto
  then show ?thesis by (auto simp: digit_char_def)
qed

lemma is_digit_digit_char: "d < 10 \<Longrightarrow> is_digit (digit_char d)"
  by (simp add: is_digit_def of_char_digit_char)

lemma digit_val_digit_char: "d < 10 \<Longrightarrow> digit_val (digit_char d) = d"
  by (simp add: digit_val_digit is_digit_digit_char of_char_digit_char)

lemma string_of_nat_digits: "c \<in> set (string_of_nat n) \<Longrightarrow> is_digit c"
proof (induction n arbitrary: c rule: string_of_nat.induct)
  case (1 n)
  show ?case
  proof (cases "n < 10")
    case True
    with "1.prems" show ?thesis
      by (simp add: string_of_nat.simps [of n] is_digit_digit_char)
  next
    case False
    with "1.prems" "1.IH" show ?thesis
      by (auto simp: string_of_nat.simps [of n] is_digit_digit_char)
  qed
qed

lemma string_of_nat_nonempty: "string_of_nat n \<noteq> []"
  by (subst string_of_nat.simps) simp

lemma digits_val_snoc: "digits_val r (ds @ [c]) = r * digits_val r ds + digit_val c"
  by (simp add: digits_val_def)

lemma digits_val_string_of_nat: "digits_val 10 (string_of_nat n) = n"
proof (induction n rule: string_of_nat.induct)
  case (1 n)
  show ?case
  proof (cases "n < 10")
    case True
    then show ?thesis
      by (simp add: string_of_nat.simps [of n] digits_val_def digit_val_digit_char)
  next
    case False
    with "1.IH" show ?thesis
      by (simp add: string_of_nat.simps [of n] digits_val_snoc digit_val_digit_char)
  qed
qed

lemma startsWith_two_mem: "startsWith s [p, q] \<Longrightarrow> q \<in> set s"
  by (cases s; cases "tl s") auto

lemma parseInt_digits:
  assumes ds: "\<And>c. c \<in> set s \<Longrightarrow> is_digit c" and ne: "s \<noteq> []"
  shows "parseInt s = Some (int (digits_val 10 s))"
proof -
  obtain c cs where s: "s = c # cs" using ne by (cases s) auto
  have c: "is_digit c" using ds s by simp
  have nsp: "\<not> is_space c" using c by (rule is_digit_not_space)
  have nsign: "c \<noteq> CHR ''-''" "c \<noteq> CHR ''+''"
    using c by (auto simp: is_digit_def)
  have nx: "\<not> is_digit CHR ''x''" "\<not> is_digit CHR ''X''"
    by (simp_all add: is_digit_def)
  have nhex: "\<not> startsWith s ''0x''" "\<not> startsWith s ''0X''"
    using startsWith_two_mem ds nx by blast+
  have tw: "takeWhile is_digit s = s"
    using ds by (simp add: takeWhile_eq_all_conv)
  have dw: "dropWhile is_space s = s"
    using nsp s by simp
  have neg: "(case s of c # _ \<Rightarrow> c = CHR ''-'' | [] \<Rightarrow> False) = False"
    using nsign s by simp
  have s2: "(case s of c # r \<Rightarrow> if c = CHR ''-'' \<or> c = CHR ''+'' then r else s | [] \<Rightarrow> s) = s"
    using nsign s by simp
  show ?thesis
    unfolding parseInt_def Let_def dw neg s2 by (simp only: nhex tw ne simp_thms if_False)
qed

lemma parseInt_string_of_nat: "parseInt (string_of_nat n) = Some (int n)"
  using parseInt_digits [of "string_of_nat n"]
  by (simp add: string_of_nat_digits string_of_nat_nonempty digits_val_string_of_nat)

lemma parseInt_String_val_JNum: "0 \<le> n \<Longrightarrow> parseInt (String_val (JNum n)) = Some n"
  by (simp add: string_of_int_def parseInt_string_of_nat)

lemma parseInt_neg_digits:
  assumes ds: "\<And>c. c \<in> set s \<Longrightarrow> is_digit c" and ne: "s \<noteq> []"
  shows "parseInt (CHR ''-'' # s) = Some (- int (digits_val 10 s))"
proof -
  have nx: "\<not> is_digit CHR ''x''" "\<not> is_digit CHR ''X''"
    by (simp_all add: is_digit_def)
  have nhex: "\<not> startsWith s ''0x''" "\<not> startsWith s ''0X''"
    using startsWith_two_mem ds nx by blast+
  have tw: "takeWhile is_digit s = s"
    using ds by (simp add: takeWhile_eq_all_conv)
  have dw: "dropWhile is_space (CHR ''-'' # s) = CHR ''-'' # s"
    by (simp add: is_space_def)
  show ?thesis
    unfolding parseInt_def Let_def dw by (simp add: nhex tw ne)
qed

lemma parseInt_string_of_int: "parseInt (string_of_int n) = Some n"
proof (cases "n < 0")
  case True
  then show ?thesis
    using parseInt_neg_digits [of "string_of_nat (nat (- n))"]
    by (simp add: string_of_int_def string_of_nat_digits string_of_nat_nonempty
        digits_val_string_of_nat)
next
  case False
  then show ?thesis by (simp add: string_of_int_def parseInt_string_of_nat)
qed

subsection \<open>The matcher against its declarative reading\<close>

lemma code_at_iff:
  "code_at d s \<noteq> None \<longleftrightarrow>
     (\<exists>a b post. s = [d, a, b] @ post \<and> is_digit a \<and> is_digit b
        \<and> (post = [] \<or> \<not> is_word_char (hd post)))"
  by (cases "(d, s)" rule: code_at.cases) (auto split: list.splits)

lemma code_match_Nil: "\<not> code_match d pw []"
  by (simp add: code_match_def)

lemma code_match_Cons:
  "code_match d pw (c # cs) \<longleftrightarrow>
     (\<not> pw \<and> code_at d (c # cs) \<noteq> None) \<or> code_match d (is_word_char c) cs"
proof
  assume "code_match d pw (c # cs)"
  then obtain pre a b post where
    s: "c # cs = pre @ [d, a, b] @ post" and d: "is_digit a" "is_digit b"
    and l: "if pre = [] then \<not> pw else \<not> is_word_char (last pre)"
    and r: "post = [] \<or> \<not> is_word_char (hd post)"
    unfolding code_match_def by blast
  show "(\<not> pw \<and> code_at d (c # cs) \<noteq> None) \<or> code_match d (is_word_char c) cs"
  proof (cases pre)
    case Nil
    with s d l r have "\<not> pw" "code_at d (c # cs) \<noteq> None"
      unfolding code_at_iff by auto
    then show ?thesis by simp
  next
    case (Cons p ps)
    with s have c: "p = c" "cs = ps @ [d, a, b] @ post" by simp_all
    have "if ps = [] then \<not> is_word_char c else \<not> is_word_char (last ps)"
      using l Cons c(1) by (auto split: if_splits)
    with c(2) d r have "code_match d (is_word_char c) cs"
      unfolding code_match_def by blast
    then show ?thesis by simp
  qed
next
  assume "(\<not> pw \<and> code_at d (c # cs) \<noteq> None) \<or> code_match d (is_word_char c) cs"
  then show "code_match d pw (c # cs)"
  proof
    assume a: "\<not> pw \<and> code_at d (c # cs) \<noteq> None"
    then obtain a b post where
      "c # cs = [d, a, b] @ post" "is_digit a" "is_digit b"
      "post = [] \<or> \<not> is_word_char (hd post)"
      unfolding code_at_iff by blast
    with a have "c # cs = [] @ [d, a, b] @ post \<and> is_digit a \<and> is_digit b
        \<and> (if ([]::string) = [] then \<not> pw else \<not> is_word_char (last []))
        \<and> (post = [] \<or> \<not> is_word_char (hd post))"
      by simp
    then show ?thesis unfolding code_match_def by blast
  next
    assume "code_match d (is_word_char c) cs"
    then obtain pre a b post where
      s: "cs = pre @ [d, a, b] @ post" and d: "is_digit a" "is_digit b"
      and l: "if pre = [] then \<not> is_word_char c else \<not> is_word_char (last pre)"
      and r: "post = [] \<or> \<not> is_word_char (hd post)"
      unfolding code_match_def by blast
    have "c # cs = (c # pre) @ [d, a, b] @ post \<and> is_digit a \<and> is_digit b
        \<and> (if c # pre = [] then \<not> pw else \<not> is_word_char (last (c # pre)))
        \<and> (post = [] \<or> \<not> is_word_char (hd post))"
      using s d l r by (auto split: if_splits)
    then show ?thesis unfolding code_match_def by blast
  qed
qed

text \<open>The matcher finds a code exactly when the string holds one.\<close>

lemma match_code_iff: "match_code d pw s \<noteq> None \<longleftrightarrow> code_match d pw s"
proof (induction s arbitrary: pw)
  case Nil
  then show ?case by (simp add: code_match_Nil)
next
  case (Cons c cs)
  show ?case
    unfolding code_match_Cons Cons.IH [symmetric]
    by (cases "code_at d (c # cs)") auto
qed

lemma text_4xx_iff: "text_4xx e \<longleftrightarrow> code_match CHR ''4'' False (toLowerCase (String_err e))"
  unfolding text_4xx_def by (rule match_code_iff)

section \<open>The retry decision\<close>

lemma match_4xx_in_range:
  assumes "match_code CHR ''4'' pw s = Some m"
  shows "(case parseInt m of Some c \<Rightarrow> in_4xx c | None \<Rightarrow> False)"
proof -
  from assms obtain a b where m: "m = [CHR ''4'', a, b]" and d: "is_digit a" "is_digit b"
    using match_code_SomeD by blast
  from parseInt_4xx [OF d] obtain c where "parseInt m = Some c" "in_4xx c"
    using m by auto
  then show ?thesis by simp
qed

lemma falsy_text:
  "\<not> truthy_error e \<Longrightarrow>
     String_err e \<in> {''undefined'', ''null'', ''false'', ''0'', []}"
proof (cases e)
  case (Prim v)
  assume "\<not> truthy_error e"
  with Prim show ?thesis
    by (cases v) (auto simp: string_of_int_def string_of_nat.simps [of 0] digit_char_def)
next
  case (ErrObj x)
  assume "\<not> truthy_error e"
  with ErrObj show ?thesis by simp
qed

lemma falsy_no_4xx:
  assumes "\<not> truthy_error e"
  shows "\<not> text_4xx e"
proof -
  have "match_code CHR ''4'' False (toLowerCase ''undefined'') = None" by code_simp
  moreover have "match_code CHR ''4'' False (toLowerCase ''null'') = None" by code_simp
  moreover have "match_code CHR ''4'' False (toLowerCase ''false'') = None" by code_simp
  moreover have "match_code CHR ''4'' False (toLowerCase ''0'') = None" by code_simp
  moreover have "match_code CHR ''4'' False (toLowerCase []) = None" by code_simp
  ultimately show ?thesis
    using falsy_text [OF assms] unfolding text_4xx_def by auto
qed

lemma isRetryableError_ErrObj:
  "isRetryableError (ErrObj x) =
     Ok (text_4xx (ErrObj x)
         \<or> (truthy (responseCode x)
              \<and> (case parseInt (String_val (responseCode x)) of Some c \<Rightarrow> in_4xx c | None \<Rightarrow> False))
         \<or> (case code x of JNum c \<Rightarrow> c \<noteq> 0 \<and> in_4xx c | _ \<Rightarrow> False)
         \<or> transient_text (ErrObj x))"
proof (cases "match_code CHR ''4'' False (toLowerCase (String_err (ErrObj x)))")
  case None
  then show ?thesis
    by (auto simp: isRetryableError_def text_4xx_def transient_text_def Let_def)
next
  case (Some m)
  with match_4xx_in_range [OF Some] show ?thesis
    by (simp add: isRetryableError_def text_4xx_def Let_def)
qed

lemma isRetryableError_Prim:
  "isRetryableError (Prim v) = Ok (truthy v \<and> (text_4xx (Prim v) \<or> transient_text (Prim v)))"
proof (cases "truthy v")
  case False
  then show ?thesis by (simp add: isRetryableError_def)
next
  case True
  then have rc: "get_responseCode (Prim v) = Ok JUndefined" "get_code (Prim v) = Ok JUndefined"
    by (cases v; simp)+
  show ?thesis
  proof (cases "match_code CHR ''4'' False (toLowerCase (String_err (Prim v)))")
    case None
    with True rc show ?thesis
      by (simp add: isRetryableError_def text_4xx_def transient_text_def Let_def)
  next
    case (Some m)
    with match_4xx_in_range [OF Some] True show ?thesis
      by (simp add: isRetryableError_def text_4xx_def Let_def)
  qed
qed

lemma isRetryableError_text_4xx: "text_4xx e \<Longrightarrow> isRetryableError e = Ok True"
proof (cases e)
  case (Prim v)
  assume t: "text_4xx e"
  with falsy_no_4xx [of e] Prim have "truthy v" by auto
  with t Prim show ?thesis by (simp add: isRetryableError_Prim)
next
  case (ErrObj x)
  assume "text_4xx e"
  with ErrObj show ?thesis by (simp add: isRetryableError_ErrObj)
qed

lemma in_4xx_nonzero: "in_4xx c \<Longrightarrow> c \<noteq> 0"
  by (simp add: in_4xx_def)

lemma isRetryableError_num_4xx:
  assumes "num_4xx (responseCode x) \<or> num_4xx (code x)"
  shows "isRetryableError (ErrObj x) = Ok True"
  using assms
proof
  assume "num_4xx (responseCode x)"
  then obtain c where "responseCode x = JNum c" "in_4xx c"
    by (cases "responseCode x") auto
  then show ?thesis
    by (simp add: isRetryableError_ErrObj parseInt_string_of_int in_4xx_nonzero)
next
  assume "num_4xx (code x)"
  then obtain c where "code x = JNum c" "in_4xx c"
    by (cases "code x") auto
  then show ?thesis
    by (simp add: isRetryableError_ErrObj in_4xx_nonzero)
qed

lemma isRetryableError_permanent:
  assumes rc: "responseCode x = JUndefined \<or> responseCode x = JNull
               \<or> (\<exists>n. responseCode x = JNum n \<and> \<not> in_4xx n)"
    and "\<not> text_4xx (ErrObj x)" "\<not> num_4xx (code x)" "\<not> transient_text (ErrObj x)"
  shows "isRetryableError (ErrObj x) = Ok False"
proof -
  have "\<not> (truthy (responseCode x)
       \<and> (case parseInt (String_val (responseCode x)) of Some c \<Rightarrow> in_4xx c | None \<Rightarrow> False))"
    using rc by (auto simp: parseInt_string_of_int)
  moreover have "\<not> (case code x of JNum c \<Rightarrow> c \<noteq> 0 \<and> in_4xx c | _ \<Rightarrow> False)"
    using assms(3) by (cases "code x") auto
  ultimately show ?thesis
    using assms(2,4) by (simp add: isRetryableError_ErrObj)
qed

lemma isRetryableError_cases:
  "isRetryableError e =
     Ok (truthy_error e \<and>
         (text_4xx e
          \<or> (truthy (rc_of e)
              \<and> (case parseInt (String_val (rc_of e)) of Some c \<Rightarrow> in_4xx c | None \<Rightarrow> False))
          \<or> (case code_of e of JNum c \<Rightarrow> c \<noteq> 0 \<and> in_4xx c | _ \<Rightarrow> False)
          \<or> transient_text e))"
  by (cases e) (simp_all add: isRetryableError_ErrObj isRetryableError_Prim rc_of_def code_of_def)

lemma isRetryableError_total: "\<exists>b. isRetryableError e = Ok b"
  by (simp add: isRetryableError_cases)

lemma isRetryableError_4xx:
  assumes "text_4xx e \<or> num_4xx (rc_of e) \<or> num_4xx (code_of e)"
  shows "isRetryableError e = Ok True"
proof (cases e)
  case (Prim v)
  with assms have "text_4xx e" by (simp add: rc_of_def code_of_def)
  then show ?thesis by (rule isRetryableError_text_4xx)
next
  case (ErrObj x)
  show ?thesis
  proof (cases "text_4xx e")
    case True
    then show ?thesis by (rule isRetryableError_text_4xx)
  next
    case False
    with assms ErrObj have "num_4xx (responseCode x) \<or> num_4xx (code x)"
      by (simp add: rc_of_def code_of_def)
    then show ?thesis unfolding ErrObj by (rule isRetryableError_num_4xx)
  qed
qed

lemma num_5xx_not_4xx:
  assumes "num_5xx v"
  shows "\<not> (truthy v \<and> (case parseInt (String_val v) of Some c \<Rightarrow> in_4xx c | None \<Rightarrow> False))"
proof -
  from assms obtain c where "v = JNum c" "in_5xx c" by (cases v) auto
  then show ?thesis by (simp add: parseInt_string_of_int in_4xx_def in_5xx_def)
qed

lemma not_num_4xx_code: "\<not> num_4xx v \<Longrightarrow> \<not> (case v of JNum c \<Rightarrow> c \<noteq> 0 \<and> in_4xx c | _ \<Rightarrow> False)"
  by (cases v) auto

lemma isRetryableError_not_transient:
  assumes "num_5xx (rc_of e) \<or> \<not> truthy (rc_of e)"
    and "\<not> text_4xx e" "\<not> num_4xx (code_of e)" "\<not> transient_text e"
  shows "isRetryableError e = Ok False"
  using assms num_5xx_not_4xx [of "rc_of e"] not_num_4xx_code [of "code_of e"]
  by (auto simp: isRetryableError_cases)

text \<open>
  Claim C1, as amended. \<^verbatim>\<open>isRetryableError\<close> returns true for every raw error whose
  lowercased text holds a stand-alone number 400 to 499, or whose \<^verbatim>\<open>responseCode\<close> or
  numeric \<^verbatim>\<open>code\<close> is a number in 400 to 499. An error whose \<^verbatim>\<open>responseCode\<close> is a
  number in 500 to 599, or that has no truthy \<^verbatim>\<open>responseCode\<close> and a 5xx \<^verbatim>\<open>code\<close> or an
  authentication text, is not retried provided it carries no 4xx number and none of the
  transient patterns. The code has no test for 5xx codes or for authentication text, so
  the proviso cannot be dropped.
\<close>

theorem isRetryableError_4xx_and_permanent:
  "(text_4xx e \<or> num_4xx (rc_of e) \<or> num_4xx (code_of e) \<longrightarrow> isRetryableError e = Ok True)
   \<and> ((num_5xx (rc_of e) \<or> ((num_5xx (code_of e) \<or> auth_text e) \<and> \<not> truthy (rc_of e)))
        \<and> \<not> text_4xx e \<and> \<not> num_4xx (code_of e) \<and> \<not> transient_text e
      \<longrightarrow> isRetryableError e = Ok False)"
  using isRetryableError_4xx [of e] isRetryableError_not_transient [of e] by blast

text \<open>
  The theorem at a 421 in the text, a 450 response code and a plain 550 error.
\<close>

theorem isRetryableError_4xx_and_permanent_witness:
  "text_4xx err_421_text \<and> isRetryableError err_421_text = Ok True
   \<and> num_4xx (rc_of err_450_code) \<and> isRetryableError err_450_code = Ok True
   \<and> num_5xx (rc_of err_550) \<and> \<not> text_4xx err_550 \<and> \<not> num_4xx (code_of err_550)
   \<and> \<not> transient_text err_550 \<and> isRetryableError err_550 = Ok False"
proof -
  have a: "text_4xx err_421_text" by code_simp
  have b: "num_4xx (rc_of err_450_code)" by code_simp
  have c: "num_5xx (rc_of err_550)" "\<not> text_4xx err_550" "\<not> num_4xx (code_of err_550)"
    "\<not> transient_text err_550" by code_simp+
  show ?thesis
    using a b c isRetryableError_4xx_and_permanent [of err_421_text]
      isRetryableError_4xx_and_permanent [of err_450_code]
      isRetryableError_4xx_and_permanent [of err_550]
    by blast
qed

text \<open>
  Without the proviso the statement fails: a 550 error whose message names a timeout,
  and an authentication failure whose text carries the code 454, are both retried.
\<close>

theorem isRetryableError_5xx_or_auth_retried:
  "num_5xx (rc_of err_550_timeout) \<and> isRetryableError err_550_timeout = Ok True
   \<and> auth_text err_auth_454 \<and> isRetryableError err_auth_454 = Ok True"
  by code_simp

text \<open>
  Claim C10. On every falsy raw error (\<^verbatim>\<open>null\<close>, \<^verbatim>\<open>undefined\<close>, the empty
  string, \<open>0\<close>, \<^verbatim>\<open>false\<close>) \<^verbatim>\<open>isRetryableError\<close> returns false. It returns a boolean on
  every input and never throws; on \<^verbatim>\<open>null\<close> and \<^verbatim>\<open>undefined\<close>, where
  \<^verbatim>\<open>categorizeError\<close> throws on reading \<^verbatim>\<open>responseCode\<close>, it returns false.
\<close>

theorem isRetryableError_falsy:
  "(\<not> truthy_error e \<longrightarrow> isRetryableError e = Ok False)
   \<and> (\<exists>b. isRetryableError e = Ok b)
   \<and> (nullish e \<longrightarrow> isRetryableError e = Ok False \<and> (\<exists>ex. categorizeError e = Throw ex))"
proof -
  have "categorizeError (Prim JNull) =
          Throw (TypeError ''Cannot read properties of null (reading 'responseCode')'')"
    by code_simp
  moreover have "categorizeError (Prim JUndefined) =
          Throw (TypeError ''Cannot read properties of undefined (reading 'responseCode')'')"
    by code_simp
  ultimately show ?thesis
    by (auto simp: isRetryableError_cases nullish_def)
qed

text \<open>The theorem at the empty string and at \<^verbatim>\<open>null\<close>.\<close>

theorem isRetryableError_falsy_witness:
  "\<not> truthy_error (Prim (JStr [])) \<and> isRetryableError (Prim (JStr [])) = Ok False
   \<and> nullish (Prim JNull) \<and> isRetryableError (Prim JNull) = Ok False
   \<and> (\<exists>ex. categorizeError (Prim JNull) = Throw ex)"
  using isRetryableError_falsy [of "Prim (JStr [])"] isRetryableError_falsy [of "Prim JNull"]
  by (simp add: nullish_def)

section \<open>The classification\<close>

lemma get_responseCode_not_nullish: "\<not> nullish e \<Longrightarrow> get_responseCode e = Ok (rc_of e)"
proof (cases e)
  case (Prim v)
  assume "\<not> nullish e"
  with Prim show ?thesis by (cases v) (simp_all add: nullish_def rc_of_def)
next
  case (ErrObj x)
  then show ?thesis by (simp add: rc_of_def)
qed

lemma categorizeError_early:
  "early_category (toLowerCase (String_err e)) = Some c \<Longrightarrow> categorizeError e = Ok c"
  by (simp add: categorizeError_def)

lemma categorizeError_late:
  assumes "\<not> nullish e" "early_category (toLowerCase (String_err e)) = None"
  shows "categorizeError e =
           Ok (if truthy (rc_of e) \<or> text_5xx e then SMTP_PROTOCOL_ERROR else UNKNOWN_ERROR)"
  using assms by (simp add: categorizeError_def get_responseCode_not_nullish text_5xx_def)

lemma categorizeError_total: "\<not> nullish e \<Longrightarrow> \<exists>c. categorizeError e = Ok c"
  by (cases "early_category (toLowerCase (String_err e))")
    (simp_all add: categorizeError_late categorizeError_early)

lemma nullish_no_5xx: "nullish e \<Longrightarrow> \<not> text_5xx e"
proof -
  have "match_code CHR ''5'' False (toLowerCase ''null'') = None" by code_simp
  moreover have "match_code CHR ''5'' False (toLowerCase ''undefined'') = None" by code_simp
  moreover assume "nullish e"
  ultimately show ?thesis by (auto simp: nullish_def text_5xx_def)
qed

lemma categorizeError_protocol:
  assumes "early_category (toLowerCase (String_err e)) = None"
    and "(rc_of e = JNum n \<and> 400 \<le> n \<and> n \<le> 599) \<or> text_5xx e"
  shows "categorizeError e = Ok SMTP_PROTOCOL_ERROR"
proof -
  have "\<not> nullish e"
    using assms(2) nullish_no_5xx [of e] by (auto simp: nullish_def rc_of_def)
  moreover have "truthy (rc_of e) \<or> text_5xx e" using assms(2) by auto
  ultimately show ?thesis using assms(1) by (simp add: categorizeError_late)
qed

text \<open>
  Claim C6, as amended. \<^verbatim>\<open>categorizeError\<close> returns a category for every raw error other
  than \<^verbatim>\<open>null\<close> and \<^verbatim>\<open>undefined\<close>. A match of one of the earlier rules
  (authentication, connection, timeout, TLS, DNS, network) decides the category. When
  none of them matches, a numeric \<^verbatim>\<open>responseCode\<close> in 400 to 599, or a stand-alone 5xx
  number in the text, gives the tag \<open>SMTP_PROTOCOL_ERROR\<close>, and an error with no truthy
  \<^verbatim>\<open>responseCode\<close> and no such number gives \<open>UNKNOWN_ERROR\<close>. The tag does not carry
  the code.
\<close>

theorem categorizeError_total_on_non_nullish:
  "(\<not> nullish e \<longrightarrow> (\<exists>c. categorizeError e = Ok c))
   \<and> (early_category (toLowerCase (String_err e)) = Some c \<longrightarrow> categorizeError e = Ok c)
   \<and> (early_category (toLowerCase (String_err e)) = None
        \<and> ((rc_of e = JNum n \<and> 400 \<le> n \<and> n \<le> 599) \<or> text_5xx e)
      \<longrightarrow> categorizeError e = Ok SMTP_PROTOCOL_ERROR)
   \<and> (\<not> nullish e \<and> early_category (toLowerCase (String_err e)) = None
        \<and> \<not> truthy (rc_of e) \<and> \<not> text_5xx e
      \<longrightarrow> categorizeError e = Ok UNKNOWN_ERROR)"
  using categorizeError_total [of e] categorizeError_early [of e c]
    categorizeError_protocol [of e n] categorizeError_late [of e]
  by auto

text \<open>
  The theorem at a 550 error, at an authentication failure that carries the response code
  535, and at a thrown string that no rule matches.
\<close>

theorem categorizeError_total_on_non_nullish_witness:
  "\<not> nullish err_550 \<and> (\<exists>c. categorizeError err_550 = Ok c)
   \<and> early_category (toLowerCase (String_err err_535_code)) = Some AUTHENTICATION_FAILED
   \<and> categorizeError err_535_code = Ok AUTHENTICATION_FAILED
   \<and> early_category (toLowerCase (String_err err_550)) = None
   \<and> rc_of err_550 = JNum 550 \<and> categorizeError err_550 = Ok SMTP_PROTOCOL_ERROR
   \<and> \<not> nullish (Prim (JStr ''boom''))
   \<and> early_category (toLowerCase (String_err (Prim (JStr ''boom'')))) = None
   \<and> \<not> truthy (rc_of (Prim (JStr ''boom''))) \<and> \<not> text_5xx (Prim (JStr ''boom''))
   \<and> categorizeError (Prim (JStr ''boom'')) = Ok UNKNOWN_ERROR"
proof -
  have a: "\<not> nullish err_550" by code_simp
  have b: "early_category (toLowerCase (String_err err_535_code)) = Some AUTHENTICATION_FAILED"
    by code_simp
  have c: "early_category (toLowerCase (String_err err_550)) = None" "rc_of err_550 = JNum 550"
    by code_simp+
  have d: "\<not> nullish (Prim (JStr ''boom''))"
    "early_category (toLowerCase (String_err (Prim (JStr ''boom'')))) = None"
    "\<not> truthy (rc_of (Prim (JStr ''boom'')))" "\<not> text_5xx (Prim (JStr ''boom''))"
    by code_simp+
  show ?thesis
    using a b c d
      categorizeError_total_on_non_nullish [of err_550 AUTHENTICATION_FAILED 550]
      categorizeError_total_on_non_nullish [of err_535_code AUTHENTICATION_FAILED 550]
      categorizeError_total_on_non_nullish [of "Prim (JStr ''boom'')" AUTHENTICATION_FAILED 550]
    by simp
qed

text \<open>
  On \<^verbatim>\<open>null\<close> and \<^verbatim>\<open>undefined\<close> the classifier throws instead of returning
  \<open>UNKNOWN_ERROR\<close>, and the response codes 450 and 550 give one and the same category.
\<close>

theorem categorizeError_null_throws:
  "categorizeError (Prim JNull) =
     Throw (TypeError ''Cannot read properties of null (reading 'responseCode')'')
   \<and> categorizeError (Prim JUndefined) =
     Throw (TypeError ''Cannot read properties of undefined (reading 'responseCode')'')
   \<and> rc_of err_450_code = JNum 450 \<and> rc_of err_550 = JNum 550
   \<and> categorizeError err_450_code = Ok SMTP_PROTOCOL_ERROR
   \<and> categorizeError err_550 = Ok SMTP_PROTOCOL_ERROR"
  by code_simp

section \<open>Attempts and backoff\<close>

lemma trace_emit [simp]: "trace (emit es s) = trace s @ es"
  and pending_emit [simp]: "pending (emit es s) = pending s"
  and email_logs_emit [simp]: "email_logs (emit es s) = email_logs s"
  by (simp_all add: emit_def)

lemma emit_emit [simp]: "emit es2 (emit es1 s) = emit (es1 @ es2) s"
  by (simp add: emit_def)

lemma sends_append [simp]: "sends (xs @ ys) = sends xs @ sends ys"
  by (induction xs rule: sends.induct) simp_all

lemma sleeps_append [simp]: "sleeps (xs @ ys) = sleeps xs @ sleeps ys"
  by (induction xs rule: sleeps.induct) simp_all

lemma audit_appends_append [simp]: "audit_appends (xs @ ys) = audit_appends xs @ audit_appends ys"
  by (induction xs rule: audit_appends.induct) simp_all

lemma lookups_append [simp]: "lookups (xs @ ys) = lookups xs + lookups ys"
  by (induction xs rule: lookups.induct) simp_all

lemma effects_append [simp]: "effects (xs @ ys) = effects xs @ effects ys"
  by (induction xs rule: effects.induct) simp_all

lemma sends_effects [simp]: "sends (effects xs) = sends xs"
  by (induction xs rule: effects.induct) simp_all

lemma sleeps_effects [simp]: "sleeps (effects xs) = sleeps xs"
  by (induction xs rule: effects.induct) simp_all

lemma audit_appends_effects [simp]: "audit_appends (effects xs) = audit_appends xs"
  by (induction xs rule: effects.induct) simp_all

lemma lookups_effects [simp]: "lookups (effects xs) = lookups xs"
  by (induction xs rule: effects.induct) simp_all

lemma categorizeError_ErrObj: "\<exists>c. categorizeError (ErrObj e) = Ok c"
  by (rule categorizeError_total) (simp add: nullish_def)

lemma isRetryableError_ErrObj_retryable: "isRetryableError (ErrObj e) = Ok (retryable e)"
  using isRetryableError_total [of "ErrObj e"] by (auto simp: retryable_def)

lemma sendWithRetry_dev:
  assumes "\<not> live svc"
  shows "sendWithRetry svc w m M a s =
     (Ok \<lparr>success = True, messageId = Some (''dev-mode-'' @ string_of_nat (now w)),
          error = None, retryCount = 0, errorCategory = None\<rparr>,
      emit [Console LogLevel ''[DEV MODE] Email would be sent:'',
            Console LogLevel ''To:'', Console LogLevel ''From:'', Console LogLevel ''Subject:'',
            Console LogLevel ''(Email content logged to email_logs table)''] s)"
  using assms by (subst sendWithRetry.simps) (simp add: live_def)

lemma sendWithRetry_success:
  assumes "live svc" "sendMail_outcome w (length (sends (trace s))) = Inr mid"
  shows "sendWithRetry svc w m M a s =
     (Ok \<lparr>success = True, messageId = Some mid, error = None,
          retryCount = int a - 1, errorCategory = None\<rparr>,
      emit [Console LogLevel ''Attempting to send email'', SendMail m,
            Console LogLevel ''Email sent successfully!''] s)"
  using assms by (subst sendWithRetry.simps) (auto simp: live_def transporter_sendMail_def)

lemma sendWithRetry_retry:
  assumes "live svc" "sendMail_outcome w (length (sends (trace s))) = Inl e"
    "retryable e" "a < M"
  shows "sendWithRetry svc w m M a s =
     sendWithRetry svc w m M (Suc a)
       (emit [Console LogLevel ''Attempting to send email'', SendMail m,
              Console ErrorLevel ''Email send failed'', Console ErrorLevel ''Error Category:'',
              Console ErrorLevel ''Error Details:'',
              Console LogLevel ''Error is retryable. Retrying'',
              Sleep (2 ^ (a - 1) * 1000)] s)"
proof -
  obtain c where "categorizeError (ErrObj e) = Ok c" using categorizeError_ErrObj by blast
  with assms show ?thesis
    by (subst sendWithRetry.simps)
      (auto simp: live_def transporter_sendMail_def isRetryableError_ErrObj_retryable Let_def)
qed

lemma sendWithRetry_give_up:
  assumes "live svc" "sendMail_outcome w (length (sends (trace s))) = Inl e"
    "\<not> (retryable e \<and> a < M)" "categorizeError (ErrObj e) = Ok c"
  shows "sendWithRetry svc w m M a s =
     (Ok \<lparr>success = False, messageId = None,
          error = Some (getErrorDetails (env w) (ErrObj e) c),
          retryCount = int a - 1, errorCategory = Some c\<rparr>,
      emit [Console LogLevel ''Attempting to send email'', SendMail m,
            Console ErrorLevel ''Email send failed'', Console ErrorLevel ''Error Category:'',
            Console ErrorLevel ''Error Details:'',
            Console ErrorLevel ''Max retries reached or error is not retryable. Giving up.'']
        s)"
  using assms
  by (subst sendWithRetry.simps)
    (auto simp: live_def transporter_sendMail_def isRetryableError_ErrObj_retryable Let_def)

lemma retries_then_success:
  assumes "live svc"
    and "\<forall>i<j. \<exists>e. sendMail_outcome w (length (sends (trace s)) + i) = Inl e \<and> retryable e"
    and "sendMail_outcome w (length (sends (trace s)) + j) = Inr mid"
    and "a + j \<le> M"
  shows "\<exists>s'. sendWithRetry svc w m M a s =
            (Ok \<lparr>success = True, messageId = Some mid, error = None,
                 retryCount = int (a + j) - 1, errorCategory = None\<rparr>, s')
          \<and> effects (trace s') = effects (trace s) @ backoff_schedule m a j @ [SendMail m]
          \<and> pending s' = pending s \<and> email_logs s' = email_logs s"
  using assms(2-)
proof (induction j arbitrary: a s)
  case 0
  then show ?case using sendWithRetry_success [OF assms(1), of w s mid m M a] by simp
next
  case (Suc j)
  from Suc.prems(1) obtain e where
    e: "sendMail_outcome w (length (sends (trace s))) = Inl e" "retryable e"
    by force
  let ?s1 = "emit [Console LogLevel ''Attempting to send email'', SendMail m,
              Console ErrorLevel ''Email send failed'', Console ErrorLevel ''Error Category:'',
              Console ErrorLevel ''Error Details:'',
              Console LogLevel ''Error is retryable. Retrying'',
              Sleep (2 ^ (a - 1) * 1000)] s"
  have step: "sendWithRetry svc w m M a s = sendWithRetry svc w m M (Suc a) ?s1"
    using Suc.prems(3) by (intro sendWithRetry_retry [OF assms(1) e]) simp
  have len: "length (sends (trace ?s1)) = Suc (length (sends (trace s)))" by simp
  have "\<forall>i<j. \<exists>e. sendMail_outcome w (length (sends (trace ?s1)) + i) = Inl e \<and> retryable e"
  proof (intro allI impI)
    fix i assume "i < j"
    then have "Suc i < Suc j" by simp
    with Suc.prems(1) show "\<exists>e. sendMail_outcome w (length (sends (trace ?s1)) + i) = Inl e \<and> retryable e"
      unfolding len by (metis add_Suc_shift)
  qed
  moreover have "sendMail_outcome w (length (sends (trace ?s1)) + j) = Inr mid"
    using Suc.prems(2) unfolding len by simp
  moreover have "Suc a + j \<le> M" using Suc.prems(3) by simp
  ultimately obtain s' where
    "sendWithRetry svc w m M (Suc a) ?s1 =
            (Ok \<lparr>success = True, messageId = Some mid, error = None,
                 retryCount = int (Suc a + j) - 1, errorCategory = None\<rparr>, s')"
    "effects (trace s') = effects (trace ?s1) @ backoff_schedule m (Suc a) j @ [SendMail m]"
    "pending s' = pending ?s1" "email_logs s' = email_logs ?s1"
    using Suc.IH [of ?s1 "Suc a"] by blast
  then show ?case unfolding step by simp
qed

lemma retries_then_failure:
  assumes "live svc"
    and "\<forall>i<j. \<exists>e. sendMail_outcome w (length (sends (trace s)) + i) = Inl e \<and> retryable e"
    and "sendMail_outcome w (length (sends (trace s)) + j) = Inl e"
    and "categorizeError (ErrObj e) = Ok c"
    and "a + j \<le> M" "\<not> (retryable e \<and> a + j < M)"
  shows "\<exists>s'. sendWithRetry svc w m M a s =
            (Ok \<lparr>success = False, messageId = None,
                 error = Some (getErrorDetails (env w) (ErrObj e) c),
                 retryCount = int (a + j) - 1, errorCategory = Some c\<rparr>, s')
          \<and> effects (trace s') = effects (trace s) @ backoff_schedule m a j @ [SendMail m]
          \<and> pending s' = pending s \<and> email_logs s' = email_logs s"
  using assms(2,3,5,6)
proof (induction j arbitrary: a s)
  case 0
  then show ?case
    using sendWithRetry_give_up [OF assms(1), of w s e a M c m] assms(4) by simp
next
  case (Suc j)
  from Suc.prems(1) obtain e' where
    e: "sendMail_outcome w (length (sends (trace s))) = Inl e'" "retryable e'"
    by force
  let ?s1 = "emit [Console LogLevel ''Attempting to send email'', SendMail m,
              Console ErrorLevel ''Email send failed'', Console ErrorLevel ''Error Category:'',
              Console ErrorLevel ''Error Details:'',
              Console LogLevel ''Error is retryable. Retrying'',
              Sleep (2 ^ (a - 1) * 1000)] s"
  have step: "sendWithRetry svc w m M a s = sendWithRetry svc w m M (Suc a) ?s1"
    using Suc.prems(3) by (intro sendWithRetry_retry [OF assms(1) e]) simp
  have len: "length (sends (trace ?s1)) = Suc (length (sends (trace s)))" by simp
  have "\<forall>i<j. \<exists>e. sendMail_outcome w (length (sends (trace ?s1)) + i) = Inl e \<and> retryable e"
  proof (intro allI impI)
    fix i assume "i < j"
    then have "Suc i < Suc j" by simp
    with Suc.prems(1) show "\<exists>e. sendMail_outcome w (length (sends (trace ?s1)) + i) = Inl e \<and> retryable e"
      unfolding len by (metis add_Suc_shift)
  qed
  moreover have "sendMail_outcome w (length (sends (trace ?s1)) + j) = Inl e"
    using Suc.prems(2) unfolding len by simp
  moreover have "Suc a + j \<le> M" "\<not> (retryable e \<and> Suc a + j < M)"
    using Suc.prems(3,4) by simp_all
  ultimately obtain s' where
    "sendWithRetry svc w m M (Suc a) ?s1 =
            (Ok \<lparr>success = False, messageId = None,
                 error = Some (getErrorDetails (env w) (ErrObj e) c),
                 retryCount = int (Suc a + j) - 1, errorCategory = Some c\<rparr>, s')"
    "effects (trace s') = effects (trace ?s1) @ backoff_schedule m (Suc a) j @ [SendMail m]"
    "pending s' = pending ?s1" "email_logs s' = email_logs ?s1"
    using Suc.IH [of ?s1 "Suc a"] by blast
  then show ?case unfolding step by simp
qed

text \<open>
  Claim C3. In production mode, with \<open>maxRetries = 3\<close>: when the transport fails with a
  retryable error on the first \<open>j < 3\<close> attempts and then succeeds, \<^verbatim>\<open>sendWithRetry\<close>
  returns success with \<open>retryCount = j\<close>, and what it did is \<open>j\<close> sends, each followed by
  a sleep of \<open>2 ^ (attempt - 1)\<close> seconds, and the final send. When all three attempts fail
  with a retryable error it returns failure with \<open>retryCount = 2\<close> and the category of
  the last error, after sleeping 1000 ms and 2000 ms between the sends.
\<close>

theorem sendWithRetry_backoff:
  assumes "live svc"
    and "\<forall>i<j. \<exists>e. sendMail_outcome w (length (sends (trace s)) + i) = Inl e \<and> retryable e"
  shows "(j < 3 \<and> sendMail_outcome w (length (sends (trace s)) + j) = Inr mid \<longrightarrow>
            (\<exists>s'. sendWithRetry svc w m 3 1 s =
               (Ok \<lparr>success = True, messageId = Some mid, error = None,
                    retryCount = int j, errorCategory = None\<rparr>, s')
             \<and> effects (trace s') = effects (trace s) @ backoff_schedule m 1 j @ [SendMail m]))
       \<and> (j = 2 \<and> sendMail_outcome w (length (sends (trace s)) + j) = Inl e \<and> retryable e
            \<and> categorizeError (ErrObj e) = Ok c \<longrightarrow>
            (\<exists>s'. sendWithRetry svc w m 3 1 s =
               (Ok \<lparr>success = False, messageId = None,
                    error = Some (getErrorDetails (env w) (ErrObj e) c),
                    retryCount = 2, errorCategory = Some c\<rparr>, s')
             \<and> effects (trace s') =
                 effects (trace s) @ [SendMail m, Sleep 1000, SendMail m, Sleep 2000, SendMail m]))"
proof (intro conjI impI)
  assume a: "j < 3 \<and> sendMail_outcome w (length (sends (trace s)) + j) = Inr mid"
  then have "1 + j \<le> 3" by simp
  from retries_then_success [OF assms(1) assms(2) conjunct2 [OF a] this, of m]
  show "\<exists>s'. sendWithRetry svc w m 3 1 s =
               (Ok \<lparr>success = True, messageId = Some mid, error = None,
                    retryCount = int j, errorCategory = None\<rparr>, s')
             \<and> effects (trace s') = effects (trace s) @ backoff_schedule m 1 j @ [SendMail m]"
    by auto
next
  assume a: "j = 2 \<and> sendMail_outcome w (length (sends (trace s)) + j) = Inl e \<and> retryable e
            \<and> categorizeError (ErrObj e) = Ok c"
  then have j: "j = 2" and o: "sendMail_outcome w (length (sends (trace s)) + j) = Inl e"
    and c: "categorizeError (ErrObj e) = Ok c" by blast+
  have le: "1 + j \<le> 3" "\<not> (retryable e \<and> 1 + j < 3)" using j by simp_all
  have sch: "backoff_schedule m 1 2 = [SendMail m, Sleep 1000, SendMail m, Sleep 2000]"
    by (simp add: numeral_2_eq_2)
  from retries_then_failure [OF assms(1) assms(2) o c le, of m]
  show "\<exists>s'. sendWithRetry svc w m 3 1 s =
               (Ok \<lparr>success = False, messageId = None,
                    error = Some (getErrorDetails (env w) (ErrObj e) c),
                    retryCount = 2, errorCategory = Some c\<rparr>, s')
             \<and> effects (trace s') =
                 effects (trace s) @ [SendMail m, Sleep 1000, SendMail m, Sleep 2000, SendMail m]"
    using j sch by auto
qed

lemma backoff_schedule_1:
  "backoff_schedule m 1 0 = []"
  "backoff_schedule m 1 1 = [SendMail m, Sleep 1000]"
  "backoff_schedule m 1 2 = [SendMail m, Sleep 1000, SendMail m, Sleep 2000]"
  by (simp_all add: numeral_2_eq_2)

lemma sleeps_backoff_schedule:
  "sleeps (backoff_schedule m a j) = map (\<lambda>i. 2 ^ (a + i - 1) * 1000) [0..<j]"
proof (induction j arbitrary: a)
  case 0
  then show ?case by simp
next
  case (Suc j)
  have "[Suc 0..<Suc j] = map Suc [0..<j]"
    by (simp only: map_Suc_upt)
  then have "map (\<lambda>i. 2 ^ (a + i - 1) * 1000) [0..<Suc j] =
        (2 ^ (a - 1) * 1000 :: nat) # map (\<lambda>i. 2 ^ (Suc a + i - 1) * 1000) [0..<j]"
    by (simp add: upt_conv_Cons comp_def del: upt_Suc)
  with Suc.IH [of "Suc a"] show ?case by simp
qed

text \<open>
  The theorem at a transport that answers 421 twice and then accepts the mail, and at
  one that always answers 421.
\<close>

theorem sendWithRetry_backoff_witness:
  "live svc_live
   \<and> sendMail_outcome world_421_twice 0 = Inl e421
   \<and> sendMail_outcome world_421_twice 1 = Inl e421
   \<and> sendMail_outcome world_421_twice 2 = Inr ''<id-1@example.org>''
   \<and> retryable e421
   \<and> (\<exists>s'. sendWithRetry svc_live world_421_twice mail0 3 1 s0 =
          (Ok \<lparr>success = True, messageId = Some ''<id-1@example.org>'', error = None,
               retryCount = 2, errorCategory = None\<rparr>, s')
        \<and> effects (trace s') =
            [SendMail mail0, Sleep 1000, SendMail mail0, Sleep 2000, SendMail mail0])
   \<and> sendMail_outcome world_421_always 2 = Inl e421
   \<and> categorizeError (ErrObj e421) = Ok SMTP_PROTOCOL_ERROR
   \<and> (\<exists>s'. sendWithRetry svc_live world_421_always mail0 3 1 s0 =
          (Ok \<lparr>success = False, messageId = None,
               error = Some ''SMTP protocol error. Server response: Service not available, try again later'',
               retryCount = 2, errorCategory = Some SMTP_PROTOCOL_ERROR\<rparr>, s')
        \<and> effects (trace s') =
            [SendMail mail0, Sleep 1000, SendMail mail0, Sleep 2000, SendMail mail0])"
proof -
  have l: "live svc_live" by code_simp
  have r: "retryable e421" by code_simp
  have c: "categorizeError (ErrObj e421) = Ok SMTP_PROTOCOL_ERROR" by code_simp
  have "getErrorDetails env_live (ErrObj e421) SMTP_PROTOCOL_ERROR =
      ''SMTP protocol error. Server response: Service not available, try again later''"
    by code_simp
  then have d: "getErrorDetails (env world_421_always) (ErrObj e421) SMTP_PROTOCOL_ERROR =
      ''SMTP protocol error. Server response: Service not available, try again later''"
    by (simp add: world_421_always_def example_world_def)
  have o: "sendMail_outcome world_421_twice 0 = Inl e421"
    "sendMail_outcome world_421_twice 1 = Inl e421"
    "sendMail_outcome world_421_twice 2 = Inr ''<id-1@example.org>''"
    "sendMail_outcome world_421_always 2 = Inl e421"
    by (simp_all add: world_421_twice_def world_421_always_def example_world_def)
  have t0: "trace s0 = []" by (simp add: s0_def)
  have f1: "\<forall>i<2. \<exists>e. sendMail_outcome world_421_twice (length (sends (trace s0)) + i) = Inl e
      \<and> retryable e"
    using r by (simp add: t0 world_421_twice_def example_world_def)
  have f2: "\<forall>i<2. \<exists>e. sendMail_outcome world_421_always (length (sends (trace s0)) + i) = Inl e
      \<and> retryable e"
    using r by (simp add: t0 world_421_always_def example_world_def)
  have sch: "backoff_schedule mail0 1 2 = [SendMail mail0, Sleep 1000, SendMail mail0, Sleep 2000]"
    by (rule backoff_schedule_1)
  have o2: "2 < (3::nat) \<and> sendMail_outcome world_421_twice (length (sends (trace s0)) + 2) =
      Inr ''<id-1@example.org>''"
    by (simp add: t0 world_421_twice_def example_world_def)
  have o3: "(2::nat) = 2 \<and> sendMail_outcome world_421_always (length (sends (trace s0)) + 2) = Inl e421
      \<and> retryable e421 \<and> categorizeError (ErrObj e421) = Ok SMTP_PROTOCOL_ERROR"
    using r c by (simp add: t0 world_421_always_def example_world_def)
  have "\<exists>s'. sendWithRetry svc_live world_421_twice mail0 3 1 s0 =
          (Ok \<lparr>success = True, messageId = Some ''<id-1@example.org>'', error = None,
               retryCount = int 2, errorCategory = None\<rparr>, s')
        \<and> effects (trace s') = effects (trace s0) @ backoff_schedule mail0 1 2 @ [SendMail mail0]"
    using sendWithRetry_backoff [OF l f1, of "''<id-1@example.org>''" mail0 e421 SMTP_PROTOCOL_ERROR]
      o2 by blast
  then have a: "\<exists>s'. sendWithRetry svc_live world_421_twice mail0 3 1 s0 =
          (Ok \<lparr>success = True, messageId = Some ''<id-1@example.org>'', error = None,
               retryCount = 2, errorCategory = None\<rparr>, s')
        \<and> effects (trace s') =
            [SendMail mail0, Sleep 1000, SendMail mail0, Sleep 2000, SendMail mail0]"
    unfolding sch t0 by simp
  have "\<exists>s'. sendWithRetry svc_live world_421_always mail0 3 1 s0 =
          (Ok \<lparr>success = False, messageId = None,
               error = Some (getErrorDetails (env world_421_always) (ErrObj e421) SMTP_PROTOCOL_ERROR),
               retryCount = 2, errorCategory = Some SMTP_PROTOCOL_ERROR\<rparr>, s')
        \<and> effects (trace s') =
            effects (trace s0) @ [SendMail mail0, Sleep 1000, SendMail mail0, Sleep 2000, SendMail mail0]"
    using sendWithRetry_backoff [OF l f2, of "''<id-1@example.org>''" mail0 e421 SMTP_PROTOCOL_ERROR]
      o3 by blast
  then have b: "\<exists>s'. sendWithRetry svc_live world_421_always mail0 3 1 s0 =
          (Ok \<lparr>success = False, messageId = None,
               error = Some ''SMTP protocol error. Server response: Service not available, try again later'',
               retryCount = 2, errorCategory = Some SMTP_PROTOCOL_ERROR\<rparr>, s')
        \<and> effects (trace s') =
            [SendMail mail0, Sleep 1000, SendMail mail0, Sleep 2000, SendMail mail0]"
    unfolding d t0 by simp
  show ?thesis using l r c o a b by blast
qed

text \<open>
  Claim C5. In production mode, when the first attempt fails with an error that
  \<^verbatim>\<open>isRetryableError\<close> rejects, \<^verbatim>\<open>sendWithRetry\<close> returns failure with
  \<open>retryCount = 0\<close>; it has sent once and has not slept.
\<close>

theorem sendWithRetry_permanent_failure:
  assumes "live svc"
    and "sendMail_outcome w (length (sends (trace s))) = Inl e"
    and "isRetryableError (ErrObj e) = Ok False"
  shows "\<exists>c s'. categorizeError (ErrObj e) = Ok c
           \<and> sendWithRetry svc w m maxRetries 1 s =
               (Ok \<lparr>success = False, messageId = None,
                    error = Some (getErrorDetails (env w) (ErrObj e) c),
                    retryCount = 0, errorCategory = Some c\<rparr>, s')
           \<and> effects (trace s') = effects (trace s) @ [SendMail m]
           \<and> sleeps (trace s') = sleeps (trace s)"
proof -
  obtain c where c: "categorizeError (ErrObj e) = Ok c" using categorizeError_ErrObj by blast
  have "\<not> (retryable e \<and> 1 < maxRetries)" using assms(3) by (simp add: retryable_def)
  from sendWithRetry_give_up [OF assms(1,2) this c, of m] c show ?thesis by simp
qed

text \<open>The theorem at a transport that answers 550.\<close>

theorem sendWithRetry_permanent_failure_witness:
  "live svc_live \<and> sendMail_outcome world_550 (length (sends (trace s0))) = Inl e550
   \<and> isRetryableError (ErrObj e550) = Ok False
   \<and> (\<exists>c s'. categorizeError (ErrObj e550) = Ok c
         \<and> sendWithRetry svc_live world_550 mail0 3 1 s0 =
               (Ok \<lparr>success = False, messageId = None,
                    error = Some (getErrorDetails (env world_550) (ErrObj e550) c),
                    retryCount = 0, errorCategory = Some c\<rparr>, s')
         \<and> effects (trace s') = effects (trace s0) @ [SendMail mail0]
         \<and> sleeps (trace s') = sleeps (trace s0))"
proof -
  have l: "live svc_live" by code_simp
  have o: "sendMail_outcome world_550 (length (sends (trace s0))) = Inl e550"
    by (simp add: world_550_def example_world_def)
  have r: "isRetryableError (ErrObj e550) = Ok False" by code_simp
  show ?thesis
    using l o r sendWithRetry_permanent_failure [OF l o r, of mail0 3] by blast
qed

section \<open>One audit record per delivery\<close>

lemma sendWithRetry_returns:
  "\<exists>r s' tr. sendWithRetry svc w m M a s = (Ok r, s')
      \<and> trace s' = trace s @ tr \<and> audit_appends tr = [] \<and> lookups tr = 0
      \<and> pending s' = pending s \<and> email_logs s' = email_logs s"
proof (induction "M - a" arbitrary: a s rule: less_induct)
  case less
  show ?case
  proof (cases "live svc")
    case False
    then show ?thesis by (simp add: sendWithRetry_dev)
  next
    case True
    show ?thesis
    proof (cases "sendMail_outcome w (length (sends (trace s)))")
      case (Inr mid)
      with True show ?thesis by (simp add: sendWithRetry_success)
    next
      case (Inl e)
      obtain c where c: "categorizeError (ErrObj e) = Ok c"
        using categorizeError_ErrObj by blast
      show ?thesis
      proof (cases "retryable e \<and> a < M")
        case False
        from sendWithRetry_give_up [OF True Inl False c] show ?thesis by simp
      next
        case r: True
        let ?s1 = "emit [Console LogLevel ''Attempting to send email'', SendMail m,
              Console ErrorLevel ''Email send failed'', Console ErrorLevel ''Error Category:'',
              Console ErrorLevel ''Error Details:'',
              Console LogLevel ''Error is retryable. Retrying'',
              Sleep (2 ^ (a - 1) * 1000)] s"
        have step: "sendWithRetry svc w m M a s = sendWithRetry svc w m M (Suc a) ?s1"
          using r by (intro sendWithRetry_retry [OF True Inl]) simp_all
        have "M - Suc a < M - a" using r by arith
        from less [OF this, of ?s1] obtain r' s' tr where
          "sendWithRetry svc w m M (Suc a) ?s1 = (Ok r', s')"
          "trace s' = trace ?s1 @ tr" "audit_appends tr = []" "lookups tr = 0"
          "pending s' = pending ?s1" "email_logs s' = email_logs ?s1"
          by blast
        then show ?thesis unfolding step by simp
      qed
    qed
  qed
qed

lemma sendEmail_after_attempts:
  assumes "sendWithRetry svc w (delivery_options w options) 3 1 s = (Ok result, s1)"
  shows "\<exists>s' post. sendEmail svc w options tt rn s = (Ok result, s')
      \<and> trace s' = trace s1 @ CreateEmailLog (build_email_log options tt rn result) # post
      \<and> sends post = [] \<and> sleeps post = [] \<and> audit_appends post = []
      \<and> lookups post = (if success result then 1 else 0)
      \<and> pending s' = pending s1 @
          (if success result then [notification_for (lookups (trace s1)) options tt rn] else [])"
  using assms
  by (cases "createEmailLog_outcome w (length (audit_appends (trace s1)))")
    (simp_all add: sendEmail_def delivery_options_def storage_createEmailLog_def
      notifySuperAdmin_start_def notification_for_def Let_def)

lemma sendEmail_returns:
  "\<exists>result s' pre post. sendEmail svc w options tt rn s = (Ok result, s')
      \<and> sendWithRetry svc w (delivery_options w options) 3 1 s = (Ok result, emit pre s)
      \<and> trace s' = trace s @ pre @ CreateEmailLog (build_email_log options tt rn result) # post
      \<and> audit_appends pre = [] \<and> lookups pre = 0
      \<and> sends post = [] \<and> sleeps post = [] \<and> audit_appends post = []
      \<and> lookups post = (if success result then 1 else 0)
      \<and> pending s' = pending s @
          (if success result then [notification_for (lookups (trace s)) options tt rn] else [])"
proof -
  obtain result s1 pre where
    r: "sendWithRetry svc w (delivery_options w options) 3 1 s = (Ok result, s1)"
    and f: "trace s1 = trace s @ pre" "audit_appends pre = []" "lookups pre = 0"
      "pending s1 = pending s" "email_logs s1 = email_logs s"
    using sendWithRetry_returns by blast
  have s1: "s1 = emit pre s" using f by (simp add: emit_def)
  from sendEmail_after_attempts [OF r, of tt rn] obtain s' post where
    e: "sendEmail svc w options tt rn s = (Ok result, s')"
      "trace s' = trace s1 @ CreateEmailLog (build_email_log options tt rn result) # post"
      "sends post = []" "sleeps post = []" "audit_appends post = []"
      "lookups post = (if success result then 1 else 0)"
      "pending s' = pending s1 @
          (if success result then [notification_for (lookups (trace s1)) options tt rn] else [])"
    by blast
  have "sendEmail svc w options tt rn s = (Ok result, s')
      \<and> sendWithRetry svc w (delivery_options w options) 3 1 s = (Ok result, emit pre s)
      \<and> trace s' = trace s @ pre @ CreateEmailLog (build_email_log options tt rn result) # post
      \<and> audit_appends pre = [] \<and> lookups pre = 0
      \<and> sends post = [] \<and> sleeps post = [] \<and> audit_appends post = []
      \<and> lookups post = (if success result then 1 else 0)
      \<and> pending s' = pending s @
          (if success result then [notification_for (lookups (trace s)) options tt rn] else [])"
    using e r f unfolding s1 by simp
  then show ?thesis by blast
qed

lemma status_sent_iff: "(status (build_email_log options tt rn result) = ''sent'') = success result"
  by (simp add: build_email_log_def)

text \<open>
  Claim C7, as amended. Every \<^verbatim>\<open>sendEmail\<close> call returns a result and makes exactly one
  append attempt to the audit store, whatever the number of retries; the status of the
  record is \<open>sent\<close> exactly when the returned \<open>success\<close> is true. It calls
  \<^verbatim>\<open>notifySuperAdmin\<close> exactly once when the delivery succeeded (one directory lookup
  is issued and one task is left behind) and not at all when it failed.
\<close>

theorem sendEmail_one_audit_record:
  "\<exists>result s'. sendEmail svc w options tt rn s = (Ok result, s')
     \<and> audit_appends (trace s') =
         audit_appends (trace s) @ [build_email_log options tt rn result]
     \<and> (status (build_email_log options tt rn result) = ''sent'') = success result
     \<and> lookups (trace s') = lookups (trace s) + (if success result then 1 else 0)
     \<and> pending s' = pending s @
         (if success result then [notification_for (lookups (trace s)) options tt rn] else [])"
proof -
  from sendEmail_returns [of svc w options tt rn s] obtain result s' pre post where
    e: "sendEmail svc w options tt rn s = (Ok result, s')"
      "trace s' = trace s @ pre @ CreateEmailLog (build_email_log options tt rn result) # post"
      "audit_appends pre = []" "lookups pre = 0" "audit_appends post = []"
      "lookups post = (if success result then 1 else 0)"
      "pending s' = pending s @
         (if success result then [notification_for (lookups (trace s)) options tt rn] else [])"
    by blast
  have "audit_appends (trace s') =
         audit_appends (trace s) @ [build_email_log options tt rn result]"
    "lookups (trace s') = lookups (trace s) + (if success result then 1 else 0)"
    using e(2-6) by simp_all
  with e(1,7) status_sent_iff [of options tt rn result] show ?thesis by blast
qed

lemma live_svc_live: "live svc_live"
  by code_simp

lemma not_live_svc_dev: "\<not> live svc_dev"
  by code_simp

lemma sendEmail_world_550:
  "\<exists>s'. sendEmail svc_live world_550 options0 ''registration_approved'' (Some ''Ann'') s0 =
      (Ok \<lparr>success = False, messageId = None,
           error = Some ''SMTP protocol error. Server response: Mailbox unavailable'',
           retryCount = 0, errorCategory = Some SMTP_PROTOCOL_ERROR\<rparr>, s')
    \<and> pending s' = [] \<and> lookups (trace s') = 0
    \<and> audit_appends (trace s') =
        [build_email_log options0 ''registration_approved'' (Some ''Ann'')
           \<lparr>success = False, messageId = None,
            error = Some ''SMTP protocol error. Server response: Mailbox unavailable'',
            retryCount = 0, errorCategory = Some SMTP_PROTOCOL_ERROR\<rparr>]"
proof -
  let ?r = "\<lparr>success = False, messageId = None,
           error = Some ''SMTP protocol error. Server response: Mailbox unavailable'',
           retryCount = 0, errorCategory = Some SMTP_PROTOCOL_ERROR\<rparr>"
  have o: "sendMail_outcome world_550 (length (sends (trace s0))) = Inl e550"
    by (simp add: world_550_def example_world_def)
  have r: "\<not> (retryable e550 \<and> 1 < (3::nat))" by code_simp
  have c: "categorizeError (ErrObj e550) = Ok SMTP_PROTOCOL_ERROR" by code_simp
  have "getErrorDetails env_live (ErrObj e550) SMTP_PROTOCOL_ERROR =
      ''SMTP protocol error. Server response: Mailbox unavailable''"
    by code_simp
  then have d: "getErrorDetails (env world_550) (ErrObj e550) SMTP_PROTOCOL_ERROR =
      ''SMTP protocol error. Server response: Mailbox unavailable''"
    by (simp add: world_550_def example_world_def)
  from sendWithRetry_give_up [OF live_svc_live o r c, of "delivery_options world_550 options0"]
  obtain s1 where
    s1: "sendWithRetry svc_live world_550 (delivery_options world_550 options0) 3 1 s0 = (Ok ?r, s1)"
      "pending s1 = []" "audit_appends (trace s1) = []" "lookups (trace s1) = 0"
    unfolding d by (simp add: s0_def)
  from sendEmail_after_attempts [OF s1(1), of "''registration_approved''" "Some ''Ann''"]
  obtain s' post where
    "sendEmail svc_live world_550 options0 ''registration_approved'' (Some ''Ann'') s0 = (Ok ?r, s')"
    "trace s' = trace s1 @
       CreateEmailLog (build_email_log options0 ''registration_approved'' (Some ''Ann'') ?r) # post"
    "audit_appends post = []" "lookups post = 0" "pending s' = pending s1"
    by auto
  then show ?thesis using s1(2,3,4) by simp
qed

text \<open>
  A delivery that fails with a 550 error does not call \<^verbatim>\<open>notifySuperAdmin\<close>: no task
  is left behind and no directory lookup is issued.
\<close>

theorem sendEmail_failure_not_notified:
  "map_option success
     (result_of (fst (sendEmail svc_live world_550 options0 ''registration_approved''
        (Some ''Ann'') s0))) = Some False
   \<and> pending (snd (sendEmail svc_live world_550 options0 ''registration_approved''
        (Some ''Ann'') s0)) = []
   \<and> lookups (trace (snd (sendEmail svc_live world_550 options0 ''registration_approved''
        (Some ''Ann'') s0))) = 0"
  using sendEmail_world_550 by auto

lemma string_of_now: "string_of_nat 1700000000000 = ''1700000000000''"
  by (simp add: string_of_nat.simps digit_char_def)

lemma startsWith_append: "startsWith (p @ s) p"
  by (induction p) simp_all

text \<open>
  Claim C8. Within one \<^verbatim>\<open>sendEmail\<close> call the append to the audit store comes after
  the last send and sleep of the call, and the result is returned as soon as the attempts
  are over, without waiting for the append. The first half holds of the code (lemma
  \<open>sendEmail_returns\<close>: the append stands in the trace after the events of
  \<^verbatim>\<open>sendWithRetry\<close>, and no send or sleep follows it). The second half does not: the
  code awaits the append under the comment that calls it non-blocking, so the result is
  returned only when the store has answered. With an audit store that fails,
  \<^verbatim>\<open>sendEmail\<close> returns its result when the append has been made and the warning about
  its failure has been logged.
\<close>

theorem sendEmail_awaits_audit_append:
  "fst (sendEmail svc_dev world_dev_db_down options0 ''registration_approved'' (Some ''Ann'') s0) =
     Ok \<lparr>success = True, messageId = Some ''dev-mode-1700000000000'', error = None,
         retryCount = 0, errorCategory = None\<rparr>
   \<and> audit_appends (trace (snd (sendEmail svc_dev world_dev_db_down options0
      ''registration_approved'' (Some ''Ann'') s0))) =
     [build_email_log options0 ''registration_approved'' (Some ''Ann'')
        \<lparr>success = True, messageId = Some ''dev-mode-1700000000000'', error = None,
         retryCount = 0, errorCategory = None\<rparr>]
   \<and> console_of WarnLevel (trace (snd (sendEmail svc_dev world_dev_db_down options0
      ''registration_approved'' (Some ''Ann'') s0))) = [''Failed to log email to database:'']"
  by (simp add: sendEmail_def sendWithRetry_dev [OF not_live_svc_dev] storage_createEmailLog_def
      world_dev_db_down_def world_dev_def example_world_def s0_def string_of_now
      notifySuperAdmin_start_def Let_def)

section \<open>The oversight notification\<close>

lemma console_of_append [simp]: "console_of l (xs @ ys) = console_of l xs @ console_of l ys"
  by (induction l xs rule: console_of.induct) simp_all

lemma transporter_sendMail_cases:
  "transporter_sendMail w m s =
     (case sendMail_outcome w (length (sends (trace s))) of
        Inl e \<Rightarrow> Throw (ErrObj e) | Inr mid \<Rightarrow> Ok mid, emit [SendMail m] s)"
  by (simp add: transporter_sendMail_def split: sum.splits)

lemma notifySuperAdmin_effects:
  assumes "notifySuperAdmin svc w emailType to' name' eventName details s = (r, s')"
  shows "r = Ok ()
     \<and> length (sends (trace s')) \<le> Suc (length (sends (trace s)))
     \<and> sleeps (trace s') = sleeps (trace s)
     \<and> audit_appends (trace s') = audit_appends (trace s)
     \<and> pending s' = pending s
     \<and> (getUsers_outcome w (lookups (trace s)) = Inr us
          \<and> find (\<lambda>u. role u = ''super_admin'') us = None
        \<longrightarrow> trace s' = trace s @ [GetUsers,
              Console WarnLevel ''No superadmin found to notify about email activity''])
     \<and> (getUsers_outcome w (lookups (trace s)) = Inl ex
        \<longrightarrow> trace s' = trace s @ [GetUsers,
              Console ErrorLevel ''Failed to send admin notification:''])
     \<and> (getUsers_outcome w (lookups (trace s)) = Inr us
          \<and> find (\<lambda>u. role u = ''super_admin'') us = Some u \<and> env_truthy (email u)
          \<and> live svc \<and> sendMail_outcome w (length (sends (trace s))) = Inl e
        \<longrightarrow> length (sends (trace s')) = Suc (length (sends (trace s)))
            \<and> console_of ErrorLevel (trace s') =
                console_of ErrorLevel (trace s) @ [''Failed to send admin notification:''])"
  using assms
  by (auto simp: notifySuperAdmin_def notifySuperAdmin_try_def notifySuperAdmin_after_lookup_def
      storage_getUsers_def getUsers_answer_def transporter_sendMail_cases live_def Let_def
      split: sum.splits option.splits if_splits prod.splits res.splits)

text \<open>
  The split of the call is sound: issuing the lookup and resuming with its answer is
  \<^verbatim>\<open>notifySuperAdmin\<close> run to its end.
\<close>

lemma notifySuperAdmin_resume_after_lookup:
  "notifySuperAdmin svc w emailType to' name' eventName details s =
     notifySuperAdmin_resume svc w emailType to' name' eventName details
       (getUsers_answer w (lookups (trace s))) (emit [GetUsers] s)"
  by (simp add: notifySuperAdmin_def notifySuperAdmin_try_def notifySuperAdmin_resume_def
      storage_getUsers_def)

lemma notifySuperAdmin_resume_returns:
  "fst (notifySuperAdmin_resume svc w emailType to' name' eventName details lookup s) = Ok ()"
  by (simp add: notifySuperAdmin_resume_def split: prod.splits res.splits)

lemma run_task_never_raises: "fst (run_task svc w t s) = Ok ()"
  by (cases t) (simp split: prod.splits res.splits)

lemma run_task_dev_no_send:
  assumes "\<not> live svc"
  shows "sends (trace (snd (run_task svc w t s))) = sends (trace s)"
proof (cases t)
  case (NotifySuperAdmin n a b c d e)
  from assms have dev: "isDevelopmentMode svc \<or> transporter svc = None"
    by (simp add: live_def)
  show ?thesis
    unfolding NotifySuperAdmin using dev
    by (auto simp: notifySuperAdmin_resume_def notifySuperAdmin_after_lookup_def Let_def
        split: sum.splits option.splits if_splits prod.splits res.splits)
qed

text \<open>
  Claim C9. \<^verbatim>\<open>notifySuperAdmin\<close> never throws. It sends at most one mail, never sleeps
  and never writes to the audit store. When the directory holds no user with the role
  \<open>super_admin\<close> it logs a warning and returns; when the directory lookup fails it logs
  the error; when the single send fails it logs the error and does not send again.
\<close>

theorem notifySuperAdmin_never_raises:
  assumes "notifySuperAdmin svc w emailType to' name' eventName details s = (r, s')"
  shows "r = Ok ()
     \<and> length (sends (trace s')) \<le> Suc (length (sends (trace s)))
     \<and> sleeps (trace s') = sleeps (trace s)
     \<and> audit_appends (trace s') = audit_appends (trace s)
     \<and> pending s' = pending s
     \<and> (getUsers_outcome w (lookups (trace s)) = Inr us
          \<and> find (\<lambda>u. role u = ''super_admin'') us = None
        \<longrightarrow> trace s' = trace s @ [GetUsers,
              Console WarnLevel ''No superadmin found to notify about email activity''])
     \<and> (getUsers_outcome w (lookups (trace s)) = Inl ex
        \<longrightarrow> trace s' = trace s @ [GetUsers,
              Console ErrorLevel ''Failed to send admin notification:''])
     \<and> (getUsers_outcome w (lookups (trace s)) = Inr us
          \<and> find (\<lambda>u. role u = ''super_admin'') us = Some u \<and> env_truthy (email u)
          \<and> live svc \<and> sendMail_outcome w (length (sends (trace s))) = Inl e
        \<longrightarrow> length (sends (trace s')) = Suc (length (sends (trace s)))
            \<and> console_of ErrorLevel (trace s') =
                console_of ErrorLevel (trace s) @ [''Failed to send admin notification:''])"
  using assms by (rule notifySuperAdmin_effects)

text \<open>
  The theorem at a directory without a super admin, at a directory that fails, and at a
  transport that rejects the notification with a 550 error.
\<close>

theorem notifySuperAdmin_never_raises_witness:
  "fst (notifySuperAdmin svc_live world_no_superadmin ''registration_approved'' ''a@x.com''
          ''Ann'' (JStr ''5K Run'') [] s0) = Ok ()
   \<and> trace (snd (notifySuperAdmin svc_live world_no_superadmin ''registration_approved''
          ''a@x.com'' ''Ann'' (JStr ''5K Run'') [] s0)) =
       [GetUsers, Console WarnLevel ''No superadmin found to notify about email activity'']
   \<and> fst (notifySuperAdmin svc_live world_directory_down ''registration_approved'' ''a@x.com''
          ''Ann'' (JStr ''5K Run'') [] s0) = Ok ()
   \<and> trace (snd (notifySuperAdmin svc_live world_directory_down ''registration_approved''
          ''a@x.com'' ''Ann'' (JStr ''5K Run'') [] s0)) =
       [GetUsers, Console ErrorLevel ''Failed to send admin notification:'']
   \<and> fst (notifySuperAdmin svc_live world_superadmin_550 ''registration_approved'' ''a@x.com''
          ''Ann'' (JStr ''5K Run'') [] s0) = Ok ()
   \<and> length (sends (trace (snd (notifySuperAdmin svc_live world_superadmin_550
          ''registration_approved'' ''a@x.com'' ''Ann'' (JStr ''5K Run'') [] s0)))) = 1
   \<and> console_of ErrorLevel (trace (snd (notifySuperAdmin svc_live world_superadmin_550
          ''registration_approved'' ''a@x.com'' ''Ann'' (JStr ''5K Run'') [] s0))) =
       [''Failed to send admin notification:'']"
proof -
  have t0: "trace s0 = []" by (simp add: s0_def)
  have a: "getUsers_outcome world_no_superadmin (lookups (trace s0)) = Inr [admin_user]
      \<and> find (\<lambda>u. role u = ''super_admin'') [admin_user] = None"
    by (simp add: world_no_superadmin_def admin_user_def)
  have b: "getUsers_outcome world_directory_down (lookups (trace s0)) = Inl db_error"
    by (simp add: world_directory_down_def)
  have c: "getUsers_outcome world_superadmin_550 (lookups (trace s0)) =
        Inr [admin_user, super_admin_user]
      \<and> find (\<lambda>u. role u = ''super_admin'') [admin_user, super_admin_user] = Some super_admin_user
      \<and> env_truthy (email super_admin_user) \<and> live svc_live
      \<and> sendMail_outcome world_superadmin_550 (length (sends (trace s0))) = Inl e550"
    using live_svc_live
    by (simp add: world_superadmin_550_def world_550_def example_world_def admin_user_def
        super_admin_user_def env_truthy_def t0)
  show ?thesis
    using a b c
      notifySuperAdmin_never_raises [OF surjective_pairing,
        of svc_live world_no_superadmin "''registration_approved''" "''a@x.com''" "''Ann''"
          "JStr ''5K Run''" "[]" s0 "[admin_user]" db_error super_admin_user e550]
      notifySuperAdmin_never_raises [OF surjective_pairing,
        of svc_live world_directory_down "''registration_approved''" "''a@x.com''" "''Ann''"
          "JStr ''5K Run''" "[]" s0 "[admin_user]" db_error super_admin_user e550]
      notifySuperAdmin_never_raises [OF surjective_pairing,
        of svc_live world_superadmin_550 "''registration_approved''" "''a@x.com''" "''Ann''"
          "JStr ''5K Run''" "[]" s0 "[admin_user, super_admin_user]" db_error super_admin_user e550]
    by (simp add: t0)
qed

section \<open>Development mode\<close>

text \<open>The constructor selects production mode exactly when host, user and password are set.\<close>

lemma new_EmailService_live:
  "live (new_EmailService e) \<longleftrightarrow>
     env_truthy (SMTP_HOST e) \<and> env_truthy (SMTP_USER e) \<and> env_truthy (SMTP_PASS e)"
  by (simp add: new_EmailService_def live_def Let_def)

lemma sendEmail_dev:
  assumes "\<not> live svc"
  shows "\<exists>s'. sendEmail svc w options tt rn s =
        (Ok \<lparr>success = True, messageId = Some (''dev-mode-'' @ string_of_nat (now w)),
             error = None, retryCount = 0, errorCategory = None\<rparr>, s')
      \<and> sends (trace s') = sends (trace s)
      \<and> audit_appends (trace s') = audit_appends (trace s) @
          [build_email_log options tt rn
             \<lparr>success = True, messageId = Some (''dev-mode-'' @ string_of_nat (now w)),
              error = None, retryCount = 0, errorCategory = None\<rparr>]
      \<and> pending s' = pending s @ [notification_for (lookups (trace s)) options tt rn]"
proof -
  let ?r = "\<lparr>success = True, messageId = Some (''dev-mode-'' @ string_of_nat (now w)),
             error = None, retryCount = 0, errorCategory = None\<rparr>"
  let ?s1 = "emit [Console LogLevel ''[DEV MODE] Email would be sent:'',
            Console LogLevel ''To:'', Console LogLevel ''From:'', Console LogLevel ''Subject:'',
            Console LogLevel ''(Email content logged to email_logs table)''] s"
  have "sendWithRetry svc w (delivery_options w options) 3 1 s = (Ok ?r, ?s1)"
    using assms by (rule sendWithRetry_dev)
  from sendEmail_after_attempts [OF this, of tt rn] obtain s' post where
    e: "sendEmail svc w options tt rn s = (Ok ?r, s')"
      "trace s' = trace ?s1 @ CreateEmailLog (build_email_log options tt rn ?r) # post"
      "sends post = []" "audit_appends post = []"
      "pending s' = pending ?s1 @ [notification_for (lookups (trace ?s1)) options tt rn]"
    by auto
  have "sends (trace s') = sends (trace s)"
    "audit_appends (trace s') = audit_appends (trace s) @ [build_email_log options tt rn ?r]"
    "pending s' = pending s @ [notification_for (lookups (trace s)) options tt rn]"
    using e(2-5) by simp_all
  with e(1) show ?thesis by simp
qed

text \<open>
  Claim C4. In development mode every \<^verbatim>\<open>sendEmail\<close> call returns success with the
  message id \<^verbatim>\<open>dev-mode-\<close> followed by the clock value and with \<open>retryCount = 0\<close>. It
  calls the transport not once, nor does the detached notification whenever it is
  resumed, and it makes one append to the audit store, of a record with the given
  template type and the status \<open>sent\<close>.
\<close>

theorem sendEmail_logged_mode:
  assumes "isDevelopmentMode svc \<or> transporter svc = None"
  shows "\<exists>r s' mid rec. sendEmail svc w options tt rn s = (Ok r, s')
      \<and> success r \<and> messageId r = Some mid \<and> mid \<noteq> [] \<and> startsWith mid ''dev-mode-''
      \<and> mid = ''dev-mode-'' @ string_of_nat (now w) \<and> retryCount r = 0
      \<and> sends (trace s') = sends (trace s)
      \<and> audit_appends (trace s') = audit_appends (trace s) @ [rec]
      \<and> templateType rec = tt \<and> status rec = ''sent''
      \<and> pending s' = pending s @ [notification_for (lookups (trace s)) options tt rn]
      \<and> sends (trace (snd (run_task svc w
            (notification_for (lookups (trace s)) options tt rn) s'))) = sends (trace s)
      \<and> (\<forall>s2. sends (trace (snd (run_task svc w
            (notification_for (lookups (trace s)) options tt rn) s2))) = sends (trace s2))"
proof -
  have dev: "\<not> live svc" using assms by (simp add: live_def)
  let ?r = "\<lparr>success = True, messageId = Some (''dev-mode-'' @ string_of_nat (now w)),
             error = None, retryCount = 0, errorCategory = None\<rparr>"
  let ?t = "notification_for (lookups (trace s)) options tt rn"
  from sendEmail_dev [OF dev, of w options tt rn s] obtain s' where
    e: "sendEmail svc w options tt rn s = (Ok ?r, s')"
      "sends (trace s') = sends (trace s)"
      "audit_appends (trace s') = audit_appends (trace s) @ [build_email_log options tt rn ?r]"
      "pending s' = pending s @ [?t]"
    by blast
  have sw: "startsWith (''dev-mode-'' @ string_of_nat (now w)) ''dev-mode-''"
    by (rule startsWith_append)
  have quiet: "\<forall>s2. sends (trace (snd (run_task svc w ?t s2))) = sends (trace s2)"
    using run_task_dev_no_send [OF dev] by blast
  have "sendEmail svc w options tt rn s = (Ok ?r, s')
      \<and> success ?r \<and> messageId ?r = Some (''dev-mode-'' @ string_of_nat (now w))
      \<and> ''dev-mode-'' @ string_of_nat (now w) \<noteq> []
      \<and> startsWith (''dev-mode-'' @ string_of_nat (now w)) ''dev-mode-''
      \<and> ''dev-mode-'' @ string_of_nat (now w) = ''dev-mode-'' @ string_of_nat (now w)
      \<and> retryCount ?r = 0
      \<and> sends (trace s') = sends (trace s)
      \<and> audit_appends (trace s') = audit_appends (trace s) @ [build_email_log options tt rn ?r]
      \<and> templateType (build_email_log options tt rn ?r) = tt
      \<and> status (build_email_log options tt rn ?r) = ''sent''
      \<and> pending s' = pending s @ [?t]
      \<and> sends (trace (snd (run_task svc w ?t s'))) = sends (trace s)
      \<and> (\<forall>s2. sends (trace (snd (run_task svc w ?t s2))) = sends (trace s2))"
    using e sw quiet by (simp add: build_email_log_def)
  then show ?thesis by blast
qed

lemma sendRegistrationApproved_sendEmail:
  "sendRegistrationApproved svc w to' name' eventName username password s =
     sendEmail svc w
       \<lparr>opt_to = to', opt_subject = ''Registration Approved - '' @ eventName,
        opt_html = generateRegistrationApprovedEmail w name' eventName username password,
        opt_metadata = Some [(''eventName'', JStr eventName), (''username'', JStr username)]\<rparr>
       ''registration_approved'' (Some name') s"
  by (simp add: sendRegistrationApproved_def)

text \<open>
  The theorem at \<^verbatim>\<open>sendRegistrationApproved("a@x.com", "Ann", "5K Run", "ann1", "pw123")\<close>
  with no SMTP configuration.
\<close>

theorem sendEmail_logged_mode_witness:
  "(isDevelopmentMode svc_dev \<or> transporter svc_dev = None)
   \<and> (\<exists>r s' mid rec.
        sendRegistrationApproved svc_dev world_dev ''a@x.com'' ''Ann'' ''5K Run'' ''ann1'' ''pw123'' s0
          = (Ok r, s')
      \<and> success r \<and> messageId r = Some mid \<and> startsWith mid ''dev-mode-''
      \<and> mid = ''dev-mode-1700000000000'' \<and> retryCount r = 0
      \<and> sends (trace s') = []
      \<and> audit_appends (trace s') = [rec]
      \<and> templateType rec = ''registration_approved'' \<and> status rec = ''sent'')"
proof -
  have d: "isDevelopmentMode svc_dev \<or> transporter svc_dev = None"
    using not_live_svc_dev by (simp add: live_def)
  have n: "now world_dev = 1700000000000" "trace s0 = []"
    by (simp_all add: world_dev_def example_world_def s0_def)
  from sendEmail_logged_mode [OF d, of world_dev
      "\<lparr>opt_to = ''a@x.com'', opt_subject = ''Registration Approved - '' @ ''5K Run'',
        opt_html = generateRegistrationApprovedEmail world_dev ''Ann'' ''5K Run'' ''ann1'' ''pw123'',
        opt_metadata = Some [(''eventName'', JStr ''5K Run''), (''username'', JStr ''ann1'')]\<rparr>"
      "''registration_approved''" "Some ''Ann''" s0]
  obtain r s' mid rec where
    "sendRegistrationApproved svc_dev world_dev ''a@x.com'' ''Ann'' ''5K Run'' ''ann1'' ''pw123'' s0
          = (Ok r, s')"
    "success r" "messageId r = Some mid" "startsWith mid ''dev-mode-''"
    "mid = ''dev-mode-'' @ string_of_nat (now world_dev)" "retryCount r = 0"
    "sends (trace s') = sends (trace s0)"
    "audit_appends (trace s') = audit_appends (trace s0) @ [rec]"
    "templateType rec = ''registration_approved''" "status rec = ''sent''"
    unfolding sendRegistrationApproved_sendEmail by blast
  then have "sendRegistrationApproved svc_dev world_dev ''a@x.com'' ''Ann'' ''5K Run'' ''ann1'' ''pw123'' s0
          = (Ok r, s')
      \<and> success r \<and> messageId r = Some mid \<and> startsWith mid ''dev-mode-''
      \<and> mid = ''dev-mode-1700000000000'' \<and> retryCount r = 0
      \<and> sends (trace s') = []
      \<and> audit_appends (trace s') = [rec]
      \<and> templateType rec = ''registration_approved'' \<and> status rec = ''sent''"
    by (simp add: n string_of_now)
  with d show ?thesis by blast
qed

section \<open>Failures of the audit store and of the notification\<close>

lemma sendWithRetry_same_transport:
  assumes "env w' = env w" "now w' = now w" "sendMail_outcome w' = sendMail_outcome w"
  shows "sendWithRetry svc w' m M a s = sendWithRetry svc w m M a s"
proof (induction "M - a" arbitrary: a s rule: less_induct)
  case less
  show ?case
  proof (cases "live svc")
    case False
    then show ?thesis by (simp add: sendWithRetry_dev assms)
  next
    case True
    show ?thesis
    proof (cases "sendMail_outcome w (length (sends (trace s)))")
      case (Inr mid)
      with True show ?thesis by (simp add: sendWithRetry_success assms)
    next
      case (Inl e)
      then have Inl': "sendMail_outcome w' (length (sends (trace s))) = Inl e"
        by (simp add: assms)
      obtain c where c: "categorizeError (ErrObj e) = Ok c"
        using categorizeError_ErrObj by blast
      show ?thesis
      proof (cases "retryable e \<and> a < M")
        case False
        from sendWithRetry_give_up [OF True Inl False c]
          sendWithRetry_give_up [OF True Inl' False c]
        show ?thesis by (simp add: assms)
      next
        case r: True
        have lt: "M - Suc a < M - a" using r by arith
        from r have ra: "retryable e" "a < M" by simp_all
        show ?thesis
          unfolding sendWithRetry_retry [OF True Inl ra] sendWithRetry_retry [OF True Inl' ra]
          by (rule less [OF lt])
      qed
    qed
  qed
qed

lemma sendEmail_never_raises: "\<exists>r s'. sendEmail svc w options tt rn s = (Ok r, s')"
  using sendEmail_returns [of svc w options tt rn s] by blast

lemma sendEmail_result_is_attempt_result:
  "fst (sendEmail svc w options tt rn s) =
     fst (sendWithRetry svc w (delivery_options w options) 3 1 s)"
proof -
  from sendEmail_returns [of svc w options tt rn s] obtain result s' pre where
    "sendEmail svc w options tt rn s = (Ok result, s')"
    "sendWithRetry svc w (delivery_options w options) 3 1 s = (Ok result, emit pre s)"
    by blast
  then show ?thesis by simp
qed

lemma sendEmail_result_independent_of_audit_and_directory:
  "fst (sendEmail svc (w\<lparr>createEmailLog_outcome := f, getUsers_outcome := g\<rparr>) options tt rn s) =
     fst (sendEmail svc w options tt rn s)"
proof -
  let ?w' = "w\<lparr>createEmailLog_outcome := f, getUsers_outcome := g\<rparr>"
  have "delivery_options ?w' options = delivery_options w options"
    by (simp add: delivery_options_def)
  moreover have "sendWithRetry svc ?w' (delivery_options w options) 3 1 s =
      sendWithRetry svc w (delivery_options w options) 3 1 s"
    by (rule sendWithRetry_same_transport) simp_all
  ultimately show ?thesis by (simp add: sendEmail_result_is_attempt_result)
qed

lemma sendEmail_contains_failures:
  "(\<exists>r s'. sendEmail svc w options tt rn s = (Ok r, s'))
   \<and> fst (sendEmail svc (w\<lparr>createEmailLog_outcome := f, getUsers_outcome := g\<rparr>) options tt rn s) =
       fst (sendEmail svc w options tt rn s)
   \<and> fst (run_task svc w t s1) = Ok ()"
  by (intro conjI sendEmail_never_raises sendEmail_result_independent_of_audit_and_directory
      run_task_never_raises)

lemma sendWithRetry_v1_success:
  assumes "sendMail_outcome w (length (sends (trace s))) = Inr mid"
  shows "sendWithRetry_v1 w m M a s =
     (Ok \<lparr>success = True, messageId = Some mid, error = None,
          retryCount = int a - 1, errorCategory = None\<rparr>, emit [SendMail m] s)"
  using assms by (subst sendWithRetry_v1.simps) (simp add: transporter_sendMail_def)

text \<open>
  Claim C2. A \<^verbatim>\<open>sendEmail\<close> call never raises to its caller; a failure of the audit store
  or of the oversight notification is caught and logged and leaves the result as it is.
  This holds of the version with the development mode (lemma
  \<open>sendEmail_contains_failures\<close>: it returns a result, the result is the same whatever
  the audit store and the directory answer, and the detached task never throws). The
  first version awaits \<^verbatim>\<open>storage.createEmailLog\<close> outside any \<^verbatim>\<open>try\<close>: with an
  audit store that fails, its \<^verbatim>\<open>sendEmail\<close> throws the store's error although the mail
  has been sent, where the later version returns the success.
\<close>

theorem sendEmail_v1_audit_failure_raises:
  "fst (sendEmail_v1 world_db_down options0 ''registration_approved'' (Some ''Ann'') s0) =
     Throw db_error
   \<and> sends (trace (snd (sendEmail_v1 world_db_down options0 ''registration_approved''
        (Some ''Ann'') s0))) = [delivery_options world_db_down options0]
   \<and> fst (sendEmail svc_live world_db_down options0 ''registration_approved'' (Some ''Ann'') s0) =
     Ok \<lparr>success = True, messageId = Some ''<id-1@example.org>'', error = None,
         retryCount = 0, errorCategory = None\<rparr>"
proof -
  have o: "sendMail_outcome world_db_down (length (sends (trace s0))) = Inr ''<id-1@example.org>''"
    by (simp add: world_db_down_def example_world_def)
  have a: "createEmailLog_outcome world_db_down n = Some db_error" for n
    by (simp add: world_db_down_def)
  have v1: "sendEmail_v1 world_db_down options0 ''registration_approved'' (Some ''Ann'') s0 =
      (Throw db_error,
       emit [SendMail (delivery_options world_db_down options0),
             CreateEmailLog (build_email_log options0 ''registration_approved'' (Some ''Ann'')
               \<lparr>success = True, messageId = Some ''<id-1@example.org>'', error = None,
                retryCount = 0, errorCategory = None\<rparr>)] s0)"
    by (simp add: sendEmail_v1_def Let_def sendWithRetry_v1_success [OF o]
        storage_createEmailLog_def a delivery_options_def)
  have "fst (sendWithRetry svc_live world_db_down (delivery_options world_db_down options0) 3 1 s0) =
     Ok \<lparr>success = True, messageId = Some ''<id-1@example.org>'', error = None,
         retryCount = 0, errorCategory = None\<rparr>"
    by (simp add: sendWithRetry_success [OF live_svc_live o])
  then show ?thesis
    unfolding v1 sendEmail_result_is_attempt_result by (simp add: s0_def)
qed

end
